theory Spec2Isabelle
  imports Main "HOL-Library.AList"
begin

section \<open>Python values and dictionaries\<close>

text \<open>
  The attribute values that the modelled code inspects are \<open>None\<close>, booleans, integers and
  strings. \<open>truthy\<close> is Python's truth test (\<open>if x\<close>, \<open>not x\<close>) on them.
\<close>

datatype pyval = PNone | PBool bool | PInt int | PStr string

fun truthy :: "pyval \<Rightarrow> bool" where
  "truthy PNone = False"
| "truthy (PBool b) = b"
| "truthy (PInt i) = (i \<noteq> 0)"
| "truthy (PStr s) = (s \<noteq> [])"

text \<open>
  A Python \<open>dict\<close> is an association list in insertion order. \<open>map_of\<close> is the lookup,
  \<open>AList.update\<close> is \<open>d[k] = v\<close>: an existing key keeps its position, a new key goes to
  the end. \<open>dict_setdefault\<close> is \<open>d.setdefault(k, v)\<close>, \<open>dict_get\<close> is \<open>d.get(k, default)\<close>.
\<close>

type_synonym 'v dict = "(string \<times> 'v) list"

definition dict_contains :: "string \<Rightarrow> 'v dict \<Rightarrow> bool" where
  "dict_contains k d = (map_of d k \<noteq> None)"

definition dict_values :: "'v dict \<Rightarrow> 'v list" where
  "dict_values d = map snd d"

definition dict_keys :: "'v dict \<Rightarrow> string list" where
  "dict_keys d = map fst d"

definition dict_setdefault :: "string \<Rightarrow> 'v \<Rightarrow> 'v dict \<Rightarrow> 'v dict" where
  "dict_setdefault k v d = (if dict_contains k d then d else AList.update k v d)"

definition dict_get :: "'v dict \<Rightarrow> string \<Rightarrow> 'v \<Rightarrow> 'v" where
  "dict_get d k dflt = (case map_of d k of Some v \<Rightarrow> v | None \<Rightarrow> dflt)"

section \<open>Sources (cibyl/sources/source.py)\<close>

text \<open>
  A \<open>Source\<close> is an \<open>AttrDict\<close>: a dictionary whose entries are read as attributes. It
  is built from \<open>name=name, driver=driver, **kwargs\<close>: \<open>src_name\<close> and \<open>src_driver\<close> are
  the two entries every source has, \<open>src_kwargs\<close> holds the others. \<open>src_methods\<close> holds
  the attributes that the source's class contributes: each method name with the dictionary
  that its \<open>speed_index\<close> decorator attached, or \<open>None\<close> for a method that carries no
  \<open>speed_index\<close>. Attribute lookup finds an entry of the instance first and a method of the
  class second.
\<close>

type_synonym speed_index = "int dict"

record source =
  src_name :: string
  src_driver :: string
  src_kwargs :: "pyval dict"
  src_methods :: "speed_index option dict"

datatype attribute = Value pyval | Method "speed_index option"

datatype source_error =
    NoSupportedSourcesFound string string
  | AttributeError

definition getattr :: "source \<Rightarrow> string \<Rightarrow> attribute option" where
  "getattr s a =
     (if a = ''name'' then Some (Value (PStr (src_name s)))
      else if a = ''driver'' then Some (Value (PStr (src_driver s)))
      else (case map_of (src_kwargs s) a of
              Some v \<Rightarrow> Some (Value v)
            | None \<Rightarrow> (case map_of (src_methods s) a of
                         Some m \<Rightarrow> Some (Method m)
                       | None \<Rightarrow> None)))"

definition hasattr :: "source \<Rightarrow> string \<Rightarrow> bool" where
  "hasattr s a = (getattr s a \<noteq> None)"

fun attr_truthy :: "attribute \<Rightarrow> bool" where
  "attr_truthy (Value v) = truthy v"
| "attr_truthy (Method m) = True"

text \<open>
  \<open>Source.__init__(self, name, driver, **kwargs)\<close>: two \<open>setdefault\<close> calls on the keyword
  dictionary, then the dictionary \<open>name=name, driver=driver, **kwargs\<close>. Python binds the
  keywords \<open>name\<close> and \<open>driver\<close> to the parameters, so \<open>kwargs\<close> never has these keys.
  The class of the source is the parameter \<open>methods\<close>.
\<close>

definition Source_init ::
  "speed_index option dict \<Rightarrow> string \<Rightarrow> string \<Rightarrow> pyval dict \<Rightarrow> source" where
  "Source_init methods name driver kwargs =
     (let kwargs1 = dict_setdefault ''enabled'' (PBool True) kwargs;
          kwargs2 = dict_setdefault ''priority'' (PInt 0) kwargs1
      in \<lparr> src_name = name, src_driver = driver, src_kwargs = kwargs2,
           src_methods = methods \<rparr>)"

text \<open>
  \<open>is_source_valid\<close>: reading \<open>source.enabled\<close> raises \<open>AttributeError\<close> when the source has
  no such attribute.
\<close>

definition is_source_valid :: "source \<Rightarrow> string \<Rightarrow> source_error + bool" where
  "is_source_valid s desired_attr =
     (case getattr s ''enabled'' of
        None \<Rightarrow> Inl AttributeError
      | Some en \<Rightarrow>
          if \<not> attr_truthy en then Inr False
          else if \<not> hasattr s desired_attr then Inr False
          else Inr True)"

text \<open>
  \<open>get_source_speed_score\<close>: \<open>args\<close> is the user's dictionary of arguments; the loop runs
  over its keys. Reading \<open>speed_index\<close> of an attribute that is not a decorated method
  raises \<open>AttributeError\<close>.
\<close>

definition get_source_speed_score ::
  "source \<Rightarrow> string \<Rightarrow> 'a dict \<Rightarrow> source_error + int" where
  "get_source_speed_score s func_name args =
     (case getattr s func_name of
        Some (Method (Some idx)) \<Rightarrow>
          Inr (foldl (\<lambda>speed arg. speed + dict_get idx arg 0)
                     (dict_get idx ''base'' 0) (dict_keys args))
      | _ \<Rightarrow> Inl AttributeError)"

text \<open>
  The loop of \<open>get_source_method\<close>: the state is \<open>(speed_score, source_method)\<close>; the
  selected bound method is represented by the source it is bound to.
\<close>

definition select_step ::
  "string \<Rightarrow> 'a dict \<Rightarrow> int \<times> source option \<Rightarrow> source
     \<Rightarrow> source_error + (int \<times> source option)" where
  "select_step func_name args st s =
     (case is_source_valid s func_name of
        Inl e \<Rightarrow> Inl e
      | Inr False \<Rightarrow> Inr st
      | Inr True \<Rightarrow>
          (case get_source_speed_score s func_name args of
             Inl e \<Rightarrow> Inl e
           | Inr source_speed_score \<Rightarrow>
               if source_speed_score > fst st
               then Inr (source_speed_score, Some s)
               else Inr st))"

fun select_loop ::
  "string \<Rightarrow> 'a dict \<Rightarrow> int \<times> source option \<Rightarrow> source list
     \<Rightarrow> source_error + (int \<times> source option)" where
  "select_loop func_name args st [] = Inr st"
| "select_loop func_name args st (s # ss) =
     (case select_step func_name args st s of
        Inl e \<Rightarrow> Inl e
      | Inr st' \<Rightarrow> select_loop func_name args st' ss)"

definition get_source_method ::
  "string \<Rightarrow> source list \<Rightarrow> string \<Rightarrow> 'a dict \<Rightarrow> source_error + source" where
  "get_source_method system_name sources func_name args =
     (case select_loop func_name args (0, None) sources of
        Inl e \<Rightarrow> Inl e
      | Inr (speed_score, None) \<Rightarrow> Inl (NoSupportedSourcesFound system_name func_name)
      | Inr (speed_score, Some s) \<Rightarrow> Inr s)"

text \<open>
  Assigning \<open>source.priority = p\<close> on an \<open>AttrDict\<close> stores the entry \<open>priority\<close>.
\<close>

definition set_priority :: "pyval \<Rightarrow> source \<Rightarrow> source" where
  "set_priority p s = s\<lparr>src_kwargs := AList.update ''priority'' p (src_kwargs s)\<rparr>"

subsection \<open>The decorator \<open>safe_request_generic\<close>\<close>

text \<open>
  An exception raised by the wrapped call is classified by the first \<open>except\<close> clause of
  \<open>request_handler\<close> that its class matches: \<open>SSLError\<close>, \<open>ConnectionError\<close> (any other
  instance of that class), \<open>HTTPError\<close> with the status code of \<open>ex.response\<close> (\<open>None\<close> when
  the exception has no response), \<open>OtherException\<close> (any other class derived from
  \<open>Exception\<close>, named) and \<open>NonException\<close> (a class derived from \<open>BaseException\<close> only:
  \<open>KeyboardInterrupt\<close>, \<open>SystemExit\<close>, \<open>GeneratorExit\<close>). \<open>CustomError c msg\<close> is an
  instance of the class \<open>c\<close> given as \<open>custom_error\<close>, built from the message \<open>msg\<close>.
  \<open>AttributeErrorRaised\<close> is what reading \<open>status_code\<close> of \<open>None\<close> raises.
\<close>

datatype py_exception =
    SSLError
  | ConnectionError
  | HTTPError "int option"
  | OtherException string
  | NonException string
  | CustomError string string
  | AttributeErrorRaised

datatype 'a outcome = Return 'a | Raise py_exception

fun str_nat :: "nat \<Rightarrow> string" where
  "str_nat n =
     (if n < 10 then [''0123456789'' ! n]
      else str_nat (n div 10) @ [''0123456789'' ! (n mod 10)])"

declare str_nat.simps [simp del]

definition str_int :: "int \<Rightarrow> string" where
  "str_int i = (if i < 0 then CHR ''-'' # str_nat (nat (- i)) else str_nat (nat i))"

definition safe_request_generic ::
  "('x \<Rightarrow> 'a outcome) \<Rightarrow> string \<Rightarrow> 'x \<Rightarrow> 'a outcome" where
  "safe_request_generic request custom_error args =
     (case request args of
        Return v \<Rightarrow> Return v
      | Raise SSLError \<Rightarrow>
          Raise (CustomError custom_error
            ''Please set certificates in order to connect to the system'')
      | Raise ConnectionError \<Rightarrow>
          Raise (CustomError custom_error
            (''Could not connect to target host, please ensure connection '' @
             ''details are correct.''))
      | Raise (HTTPError None) \<Rightarrow> Raise AttributeErrorRaised
      | Raise (HTTPError (Some status_code)) \<Rightarrow>
          Raise (CustomError custom_error
            (''Got response '' @ str_int status_code @ '' from target host.''))
      | Raise (NonException n) \<Rightarrow> Raise (NonException n)
      | Raise ex \<Rightarrow> Raise (CustomError custom_error ''Failure on request to target host.''))"

text \<open>\<open>safe_request = partial(safe_request_generic, custom_error=JenkinsError)\<close>\<close>

definition safe_request :: "('x \<Rightarrow> 'a outcome) \<Rightarrow> 'x \<Rightarrow> 'a outcome" where
  "safe_request request = safe_request_generic request ''JenkinsError''"

text \<open>
  \<open>derived_from_Exception\<close> tells whether \<open>except Exception\<close> matches an exception;
  \<open>is_custom_error c r\<close> tells whether the outcome \<open>r\<close> is a raised instance of the
  class \<open>c\<close>.
\<close>

fun derived_from_Exception :: "py_exception \<Rightarrow> bool" where
  "derived_from_Exception (NonException n) = False"
| "derived_from_Exception ex = True"

fun is_custom_error :: "string \<Rightarrow> 'a outcome \<Rightarrow> bool" where
  "is_custom_error c (Raise (CustomError c' msg)) = (c' = c)"
| "is_custom_error c r = False"

section \<open>The CI models (cibyl/models/ci)\<close>

text \<open>
  The methods of the models update \<open>self\<close> in place; the functions below take the value
  of \<open>self\<close> and return its new value. Python stores an incoming child by reference, so
  a later merge can reach the same child from both sides; for collections keyed by
  identity such a merge meets each child with itself and changes nothing, and the values
  computed here are the values of the objects.
\<close>

text \<open>
  An optional string or integer attribute is \<open>None\<close> or a value; \<open>str_truthy\<close> and
  \<open>int_truthy\<close> are Python's truth test on them (\<open>None\<close>, the empty string and 0 are
  false).
\<close>

fun str_truthy :: "string option \<Rightarrow> bool" where
  "str_truthy None = False"
| "str_truthy (Some s) = (s \<noteq> [])"

fun int_truthy :: "int option \<Rightarrow> bool" where
  "int_truthy None = False"
| "int_truthy (Some i) = (i \<noteq> 0)"

subsection \<open>Test\<close>

record test =
  test_name :: string
  test_result :: "string option"
  test_duration :: "int option"
  test_class_name :: "string option"

text \<open>
  Modelled from the spec: \<open>Test.merge\<close> (cibyl/models/ci/test.py is not among the sources).
  A test is a leaf: it merges scalar fields only, each by the scalar rule (take the
  incoming value if the existing one has no value, otherwise keep the existing one).
\<close>

definition Test_merge :: "test \<Rightarrow> test \<Rightarrow> test" where
  "Test_merge self other =
     (let s1 = (if \<not> str_truthy (test_result self)
                then self\<lparr>test_result := test_result other\<rparr> else self);
          s2 = (if \<not> int_truthy (test_duration s1)
                then s1\<lparr>test_duration := test_duration other\<rparr> else s1)
      in (if \<not> str_truthy (test_class_name s2)
          then s2\<lparr>test_class_name := test_class_name other\<rparr> else s2))"

subsection \<open>Build (build.py)\<close>

record build =
  build_id :: string
  build_status :: "string option"
  build_duration :: "int option"
  build_tests :: "test dict"

definition Build_add_test :: "build \<Rightarrow> test \<Rightarrow> build" where
  "Build_add_test self t =
     (let name = test_name t in
      case map_of (build_tests self) name of
        Some existing \<Rightarrow>
          self\<lparr>build_tests := AList.update name (Test_merge existing t) (build_tests self)\<rparr>
      | None \<Rightarrow>
          self\<lparr>build_tests := AList.update name t (build_tests self)\<rparr>)"

definition Build_merge :: "build \<Rightarrow> build \<Rightarrow> build" where
  "Build_merge self other =
     foldl Build_add_test
       (if \<not> str_truthy (build_status self)
        then self\<lparr>build_status := build_status other\<rparr> else self)
       (dict_values (build_tests other))"

subsection \<open>Job (job.py)\<close>

record job =
  job_name :: string
  job_url :: "string option"
  job_builds :: "build dict"

definition Job_add_build :: "job \<Rightarrow> build \<Rightarrow> job" where
  "Job_add_build self b =
     (let bid = build_id b in
      case map_of (job_builds self) bid of
        Some existing \<Rightarrow>
          self\<lparr>job_builds := AList.update bid (Build_merge existing b) (job_builds self)\<rparr>
      | None \<Rightarrow>
          self\<lparr>job_builds := AList.update bid b (job_builds self)\<rparr>)"

definition Job_merge :: "job \<Rightarrow> job \<Rightarrow> job" where
  "Job_merge self other =
     foldl Job_add_build
       (if \<not> str_truthy (job_url self)
        then self\<lparr>job_url := job_url other\<rparr> else self)
       (dict_values (job_builds other))"

subsection \<open>Pipeline\<close>

text \<open>
  Modelled from the spec: the \<open>Pipeline\<close> model (cibyl/models/ci/pipeline.py is not among
  the sources). It has a name, its identity key, and is kept structurally parallel to
  \<open>Job\<close>: a collection of children keyed by identity that \<open>merge\<close> unites child by child.
\<close>

record pipeline =
  pipeline_name :: string
  pipeline_jobs :: "job dict"

definition Pipeline_add_job :: "pipeline \<Rightarrow> job \<Rightarrow> pipeline" where
  "Pipeline_add_job self j =
     (let name = job_name j in
      case map_of (pipeline_jobs self) name of
        Some existing \<Rightarrow>
          self\<lparr>pipeline_jobs := AList.update name (Job_merge existing j) (pipeline_jobs self)\<rparr>
      | None \<Rightarrow>
          self\<lparr>pipeline_jobs := AList.update name j (pipeline_jobs self)\<rparr>)"

definition Pipeline_merge :: "pipeline \<Rightarrow> pipeline \<Rightarrow> pipeline" where
  "Pipeline_merge self other =
     foldl Pipeline_add_job self (dict_values (pipeline_jobs other))"

subsection \<open>Equality of models\<close>

text \<open>
  \<open>Job.__eq__(self, other)\<close> returns \<open>False\<close> unless \<open>other\<close> is a \<open>Job\<close>, and compares
  the names otherwise. The operands that reach it in the modelled code are strings and
  models. \<open>Pipeline.__eq__\<close> is modelled from the spec, parallel to \<open>Job.__eq__\<close>.
\<close>

datatype operand = StrObj string | JobObj job | PipelineObj pipeline

fun Job_eq :: "job \<Rightarrow> operand \<Rightarrow> bool" where
  "Job_eq self (JobObj other) = (job_name self = job_name other)"
| "Job_eq self _ = False"

fun Pipeline_eq :: "pipeline \<Rightarrow> operand \<Rightarrow> bool" where
  "Pipeline_eq self (PipelineObj other) = (pipeline_name self = pipeline_name other)"
| "Pipeline_eq self _ = False"

text \<open>
  \<open>x in d.values()\<close> for a string \<open>x\<close>: Python compares \<open>x\<close> with each value by \<open>==\<close>;
  \<open>str.__eq__\<close> does not know the model classes, so the comparison is decided by the
  \<open>__eq__\<close> of the value, called with the string as \<open>other\<close>.
\<close>

definition str_in_job_values :: "string \<Rightarrow> job list \<Rightarrow> bool" where
  "str_in_job_values x vs = list_ex (\<lambda>v. Job_eq v (StrObj x)) vs"

definition str_in_pipeline_values :: "string \<Rightarrow> pipeline list \<Rightarrow> bool" where
  "str_in_pipeline_values x vs = list_ex (\<lambda>v. Pipeline_eq v (StrObj x)) vs"

subsection \<open>System (system.py)\<close>

record system =
  sys_name :: string
  sys_system_type :: string
  sys_jobs :: "job dict"
  sys_jobs_scope :: string
  sys_sources :: "source list"
  sys_pipelines :: "pipeline dict"

datatype model_error = KeyError string

text \<open>
  \<open>System.add_job\<close>: the test is \<open>job_name in self.jobs.values()\<close>; in its first branch
  \<open>self.jobs[job_name]\<close> raises \<open>KeyError\<close> for a name that is not a key.
\<close>

definition System_add_job :: "system \<Rightarrow> job \<Rightarrow> model_error + system" where
  "System_add_job self j =
     (let name = job_name j in
      if str_in_job_values name (dict_values (sys_jobs self))
      then (case map_of (sys_jobs self) name of
              None \<Rightarrow> Inl (KeyError name)
            | Some existing \<Rightarrow>
                Inr (self\<lparr>sys_jobs := AList.update name (Job_merge existing j) (sys_jobs self)\<rparr>))
      else Inr (self\<lparr>sys_jobs := AList.update name j (sys_jobs self)\<rparr>))"

definition ZuulSystem_add_pipeline :: "system \<Rightarrow> pipeline \<Rightarrow> model_error + system" where
  "ZuulSystem_add_pipeline self p =
     (let name = pipeline_name p in
      if str_in_pipeline_values name (dict_values (sys_pipelines self))
      then (case map_of (sys_pipelines self) name of
              None \<Rightarrow> Inl (KeyError name)
            | Some existing \<Rightarrow>
                Inr (self\<lparr>sys_pipelines :=
                       AList.update name (Pipeline_merge existing p) (sys_pipelines self)\<rparr>))
      else Inr (self\<lparr>sys_pipelines := AList.update name p (sys_pipelines self)\<rparr>))"

text \<open>
  A collection is keyed by identity when its keys are distinct and every child sits under
  its own identity key, as the data model requires.
\<close>

definition keyed_by :: "('v \<Rightarrow> string) \<Rightarrow> 'v dict \<Rightarrow> bool" where
  "keyed_by key d = (distinct (map fst d) \<and> list_all (\<lambda>(k, v). key v = k) d)"

definition build_keyed :: "build \<Rightarrow> bool" where
  "build_keyed b = keyed_by test_name (build_tests b)"

definition job_keyed :: "job \<Rightarrow> bool" where
  "job_keyed j =
     (keyed_by build_id (job_builds j) \<and> list_all build_keyed (dict_values (job_builds j)))"

text \<open>
  \<open>Build.add_test\<close>, \<open>Job.add_build\<close> and the modelled \<open>Pipeline.add_job\<close> act alike on
  the collection of children: \<open>add_child key merge d c\<close> looks the key of \<open>c\<close> up in \<open>d\<close>,
  merges \<open>c\<close> into the child found there, or stores \<open>c\<close> under its key.
\<close>

definition add_child :: "('v \<Rightarrow> string) \<Rightarrow> ('v \<Rightarrow> 'v \<Rightarrow> 'v) \<Rightarrow> 'v dict \<Rightarrow> 'v \<Rightarrow> 'v dict" where
  "add_child key merge d c =
     (case map_of d (key c) of
        Some existing \<Rightarrow> AList.update (key c) (merge existing c) d
      | None \<Rightarrow> AList.update (key c) c d)"

section \<open>The validator (cibyl/cli/validator.py, cibyl/exceptions/model.py)\<close>

text \<open>
  The exceptions of cibyl/exceptions/model.py keep one thing, the message their
  constructor builds.
\<close>

datatype validator_error =
    InvalidEnvironment string
  | InvalidSystem string
  | NoValidSystem string

definition newline :: string where
  "newline = [CHR 0x0A]"

definition name_lines :: "string list \<Rightarrow> string" where
  "name_lines names = concat (map (\<lambda>n. n @ newline) names)"

definition InvalidEnvironment_init :: "string \<Rightarrow> string list \<Rightarrow> validator_error" where
  "InvalidEnvironment_init environment valid_environments =
     InvalidEnvironment
       (''No such environment: '' @ environment @
        (if valid_environments \<noteq> []
         then newline @ ''Please use one of the following available'' @
              '' environments:'' @ newline @ name_lines valid_environments
         else newline @ ''Please set at least one environment in the '' @
              ''configuration file.''))"

definition InvalidSystem_init :: "string \<Rightarrow> string list \<Rightarrow> validator_error" where
  "InvalidSystem_init system valid_systems =
     InvalidSystem
       (''No such system: '' @ system @
        (if valid_systems \<noteq> []
         then newline @ ''Please use one of the following available'' @
              '' systems:'' @ newline @ name_lines valid_systems
         else newline @ ''Please ensure the specified systems are present'' @
              '' in the configuration.''))"

definition NoValidSystem_init :: "string list \<Rightarrow> validator_error" where
  "NoValidSystem_init valid_systems =
     NoValidSystem
       (''No valid system defined.'' @
        (if valid_systems \<noteq> []
         then newline @ ''Please use one of the following available'' @
              '' systems:'' @ newline @ name_lines valid_systems
         else newline @ ''Please ensure the specified systems are present'' @
              '' in the configuration.''))"

text \<open>
  The user input \<open>ci_args\<close> is a dictionary from argument names to \<open>Argument\<close> objects.
  The class \<open>Argument\<close> (cibyl/cli/argument.py) is not among the sources; the validator
  reads its \<open>value\<close>, iterates over it and tests membership in it, so the value is a list
  of strings. An \<open>Argument\<close> found in the dictionary passes the test \<open>if user_input:\<close>, as
  an object does. An \<open>Environment\<close> has a name and a list of systems.
\<close>

record argument =
  arg_value :: "string list"

type_synonym ci_args = "argument dict"

record environment =
  env_name :: string
  env_systems :: "system list"

definition check_input_environments ::
  "ci_args \<Rightarrow> string list \<Rightarrow> string \<Rightarrow> (string \<Rightarrow> string list \<Rightarrow> validator_error)
     \<Rightarrow> validator_error + unit" where
  "check_input_environments ci all_envs argument exception_to_raise =
     (case map_of ci argument of
        None \<Rightarrow> Inr ()
      | Some env_user_input \<Rightarrow>
          (case find (\<lambda>name. name \<notin> set all_envs) (arg_value env_user_input) of
             Some name \<Rightarrow> Inl (exception_to_raise name all_envs)
           | None \<Rightarrow> Inr ()))"

definition consistent_environment :: "ci_args \<Rightarrow> environment \<Rightarrow> bool" where
  "consistent_environment ci env =
     (case map_of ci ''env_name'' of
        Some user_env \<Rightarrow> env_name env \<in> set (arg_value user_env)
      | None \<Rightarrow> True)"

definition consistent_system :: "ci_args \<Rightarrow> system \<Rightarrow> bool" where
  "consistent_system ci sys =
     (let name = sys_name sys;
          system_type = sys_system_type sys;
          system_sources = set (map src_name (sys_sources sys))
      in if (case map_of ci ''system_type'' of
               Some user_system_type \<Rightarrow> system_type \<notin> set (arg_value user_system_type)
             | None \<Rightarrow> False) then False
         else if (case map_of ci ''systems'' of
               Some user_systems \<Rightarrow> name \<notin> set (arg_value user_systems)
             | None \<Rightarrow> False) then False
         else if (case map_of ci ''sources'' of
               Some user_sources \<Rightarrow> set (arg_value user_sources) \<inter> system_sources = {}
             | None \<Rightarrow> False) then False
         else True)"

text \<open>
  The second loop of \<open>validate_environments\<close>; the state is \<open>(user_envs, user_systems)\<close>.
  An environment that is kept has its systems replaced by the filtered list.
\<close>

fun filter_loop ::
  "ci_args \<Rightarrow> environment list \<Rightarrow> environment list \<times> system list
     \<Rightarrow> environment list \<times> system list" where
  "filter_loop ci [] acc = acc"
| "filter_loop ci (env # envs) (user_envs, user_systems) =
     (if \<not> consistent_environment ci env then filter_loop ci envs (user_envs, user_systems)
      else (let systems = filter (consistent_system ci) (env_systems env)
            in if systems \<noteq> []
               then filter_loop ci envs
                      (user_envs @ [env\<lparr>env_systems := systems\<rparr>], user_systems @ systems)
               else filter_loop ci envs (user_envs, user_systems)))"

definition validate_environments ::
  "ci_args \<Rightarrow> environment list \<Rightarrow> validator_error + (environment list \<times> system list)" where
  "validate_environments ci environments =
     (let all_envs = map env_name environments;
          all_systems = concat (map (\<lambda>env. map sys_name (env_systems env)) environments)
      in case check_input_environments ci all_envs ''env_name'' InvalidEnvironment_init of
           Inl e \<Rightarrow> Inl e
         | Inr _ \<Rightarrow>
        (case check_input_environments ci all_systems ''systems'' InvalidSystem_init of
           Inl e \<Rightarrow> Inl e
         | Inr _ \<Rightarrow>
        (case filter_loop ci environments ([], []) of
           (user_envs, user_systems) \<Rightarrow>
             if user_systems = [] then Inl (NoValidSystem_init all_systems)
             else Inr (user_envs, user_systems))))"

text \<open>
  The second pass as the specification words it: an environment survives if the
  environment-name constraint (if any) matches its name; a system of a surviving
  environment survives if its type constraint, its name constraint and its source-name
  constraint (each if any) hold; an environment that loses all its systems is dropped.
\<close>

definition system_survives :: "ci_args \<Rightarrow> system \<Rightarrow> bool" where
  "system_survives ci sys =
     ((case map_of ci ''system_type'' of
         None \<Rightarrow> True | Some a \<Rightarrow> sys_system_type sys \<in> set (arg_value a)) \<and>
      (case map_of ci ''systems'' of
         None \<Rightarrow> True | Some a \<Rightarrow> sys_name sys \<in> set (arg_value a)) \<and>
      (case map_of ci ''sources'' of
         None \<Rightarrow> True
       | Some a \<Rightarrow> list_ex (\<lambda>src. src_name src \<in> set (arg_value a)) (sys_sources sys)))"

definition surviving_environments :: "ci_args \<Rightarrow> environment list \<Rightarrow> environment list" where
  "surviving_environments ci environments =
     filter (\<lambda>env. env_systems env \<noteq> [])
       (map (\<lambda>env. env\<lparr>env_systems := filter (system_survives ci) (env_systems env)\<rparr>)
          (filter (consistent_environment ci) environments))"

section \<open>Concrete configurations for the worked examples\<close>

text \<open>
  Three sources that implement \<open>get_builds\<close>, with the speed indexes
  \<open>{'base': 1}\<close>, \<open>{'base': 2, 'last_build': 1}\<close> and \<open>{'base': 3}\<close>, and a user input that
  holds the argument \<open>last_build\<close>.
\<close>

definition src_X :: source where
  "src_X = Source_init [(''get_builds'', Some [(''base'', 1)])] ''X'' ''elasticsearch'' []"

definition src_Y :: source where
  "src_Y = Source_init [(''get_builds'', Some [(''base'', 2), (''last_build'', 1)])]
             ''Y'' ''jenkins'' []"

definition src_Z :: source where
  "src_Z = Source_init [(''get_builds'', Some [(''base'', 3)])] ''Z'' ''zuul''
             [(''priority'', PInt 5)]"

definition args_last_build :: "argument dict" where
  "args_last_build = [(''last_build'', \<lparr>arg_value = []\<rparr>)]"

text \<open>
  An enabled source whose \<open>get_builds\<close> is decorated with \<open>speed_index({'base': 0})\<close>.
\<close>

definition src_zero :: source where
  "src_zero = Source_init [(''get_builds'', Some [(''base'', 0)])] ''slow'' ''jenkins'' []"

text \<open>
  A system that holds the job \<open>j\<close> with a URL and the build 1, and a second description
  of the job \<open>j\<close>, as another query returns it, with the build 2 and no URL. The build 1
  is also described a second time, without a status and with the test \<open>t1\<close>.
\<close>

definition test_t1 :: test where
  "test_t1 = \<lparr>test_name = ''t1'', test_result = Some ''FAILURE'', test_duration = None,
               test_class_name = None\<rparr>"

definition build_1 :: build where
  "build_1 = \<lparr>build_id = ''1'', build_status = Some ''SUCCESS'', build_duration = None,
               build_tests = []\<rparr>"

definition build_1_t1 :: build where
  "build_1_t1 = \<lparr>build_id = ''1'', build_status = None, build_duration = None,
                  build_tests = [(''t1'', test_t1)]\<rparr>"

definition build_2 :: build where
  "build_2 = \<lparr>build_id = ''2'', build_status = Some ''FAILURE'', build_duration = None,
               build_tests = []\<rparr>"

definition job_old :: job where
  "job_old = \<lparr>job_name = ''j'', job_url = Some ''http://ci/job/j'',
               job_builds = [(''1'', build_1)]\<rparr>"

definition job_new :: job where
  "job_new = \<lparr>job_name = ''j'', job_url = None, job_builds = [(''2'', build_2)]\<rparr>"

definition job_other :: job where
  "job_other = \<lparr>job_name = ''j'', job_url = Some ''http://mirror/job/j'',
                 job_builds = [(''1'', build_1_t1)]\<rparr>"

definition sys_old :: system where
  "sys_old = \<lparr>sys_name = ''s'', sys_system_type = ''jenkins'', sys_jobs = [(''j'', job_old)],
               sys_jobs_scope = ''*'', sys_sources = [], sys_pipelines = []\<rparr>"

text \<open>
  A configuration with two environments. \<open>staging\<close> has the system \<open>sys_a\<close> with the
  sources X and Y and the system \<open>sys_b\<close> with the source Z; \<open>dev\<close> has the system
  \<open>sys_c\<close> with the source Z. Three user inputs: the environment \<open>prod\<close> together with a
  source name; the source name Y; the source name W, which no system has.
\<close>

definition sys_a :: system where
  "sys_a = \<lparr>sys_name = ''sys_a'', sys_system_type = ''jenkins'', sys_jobs = [],
             sys_jobs_scope = ''*'', sys_sources = [src_X, src_Y], sys_pipelines = []\<rparr>"

definition sys_b :: system where
  "sys_b = \<lparr>sys_name = ''sys_b'', sys_system_type = ''zuul'', sys_jobs = [],
             sys_jobs_scope = ''*'', sys_sources = [src_Z], sys_pipelines = []\<rparr>"

definition sys_c :: system where
  "sys_c = \<lparr>sys_name = ''sys_c'', sys_system_type = ''zuul'', sys_jobs = [],
             sys_jobs_scope = ''*'', sys_sources = [src_Z], sys_pipelines = []\<rparr>"

definition env_staging :: environment where
  "env_staging = \<lparr>env_name = ''staging'', env_systems = [sys_a, sys_b]\<rparr>"

definition env_dev :: environment where
  "env_dev = \<lparr>env_name = ''dev'', env_systems = [sys_c]\<rparr>"

definition args_prod :: ci_args where
  "args_prod = [(''env_name'', \<lparr>arg_value = [''staging'', ''prod'']\<rparr>),
                (''systems'', \<lparr>arg_value = [''nowhere'']\<rparr>),
                (''sources'', \<lparr>arg_value = [''W'']\<rparr>)]"

definition args_system_nowhere :: ci_args where
  "args_system_nowhere = [(''env_name'', \<lparr>arg_value = [''staging'']\<rparr>),
                          (''systems'', \<lparr>arg_value = [''sys_a'', ''nowhere'']\<rparr>),
                          (''sources'', \<lparr>arg_value = [''W'']\<rparr>)]"

definition args_source_Y :: ci_args where
  "args_source_Y = [(''sources'', \<lparr>arg_value = [''Y'']\<rparr>)]"

definition args_source_W :: ci_args where
  "args_source_W = [(''sources'', \<lparr>arg_value = [''W'']\<rparr>)]"

text \<open>
  Requests, as \<open>send_request\<close> may end: interrupted from the keyboard, failed on the
  certificate, refused, answered with status 404, failed otherwise, or answered.
\<close>

definition interrupted_request :: "string \<Rightarrow> string outcome" where
  "interrupted_request query = Raise (NonException ''KeyboardInterrupt'')"

definition ssl_request :: "string \<Rightarrow> string outcome" where
  "ssl_request query = Raise SSLError"

definition refused_request :: "string \<Rightarrow> string outcome" where
  "refused_request query = Raise ConnectionError"

definition not_found_request :: "string \<Rightarrow> string outcome" where
  "not_found_request query = Raise (HTTPError (Some 404))"

definition broken_request :: "string \<Rightarrow> string outcome" where
  "broken_request query = Raise (OtherException ''JSONDecodeError'')"

definition answered_request :: "string \<Rightarrow> string outcome" where
  "answered_request query = Return ''{}''"

section \<open>The source resolver\<close>

lemma foldl_add_sum_list:
  "foldl (\<lambda>speed arg. speed + g arg) (b::int) xs = b + sum_list (map g xs)"
  by (induction xs arbitrary: b) (simp_all add: add.assoc)

lemma Source_init_getattr_enabled:
  "getattr (Source_init ms n d kw) ''enabled'' =
     Some (Value (case map_of kw ''enabled'' of None \<Rightarrow> PBool True | Some v \<Rightarrow> v))"
  by (auto simp: getattr_def Source_init_def dict_setdefault_def dict_contains_def Let_def
        AList.update_conv' split: option.splits)

lemma Source_init_getattr_priority:
  "getattr (Source_init ms n d kw) ''priority'' =
     Some (Value (case map_of kw ''priority'' of None \<Rightarrow> PInt 0 | Some v \<Rightarrow> v))"
  by (auto simp: getattr_def Source_init_def dict_setdefault_def dict_contains_def Let_def
        AList.update_conv' split: option.splits)

lemma Source_init_valid:
  "is_source_valid (Source_init ms n d kw) f =
     Inr ((case map_of kw ''enabled'' of None \<Rightarrow> True | Some v \<Rightarrow> truthy v)
          \<and> hasattr (Source_init ms n d kw) f)"
  by (auto simp: is_source_valid_def Source_init_getattr_enabled split: option.splits)

lemma select_step_cases:
  "select_step f args (sc0, b0) s = Inr (sc1, b1) \<Longrightarrow>
     (is_source_valid s f = Inr False \<and> sc1 = sc0 \<and> b1 = b0) \<or>
     (is_source_valid s f = Inr True \<and>
        (\<exists>x. get_source_speed_score s f args = Inr x \<and>
           ((sc0 < x \<and> sc1 = x \<and> b1 = Some s) \<or> (x \<le> sc0 \<and> sc1 = sc0 \<and> b1 = b0))))"
  by (auto simp: select_step_def split: sum.splits bool.splits if_splits)

lemma select_loop_char:
  "select_loop f args (sc0, b0) srcs = Inr (sc, b) \<Longrightarrow>
     sc0 \<le> sc \<and>
     (\<forall>s\<in>set srcs. is_source_valid s f = Inr True \<longrightarrow>
         (\<exists>x. get_source_speed_score s f args = Inr x \<and> x \<le> sc)) \<and>
     ((sc = sc0 \<and> b = b0) \<or>
      (sc0 < sc \<and> (\<exists>pre m post. srcs = pre @ m # post \<and> b = Some m \<and>
          is_source_valid m f = Inr True \<and> get_source_speed_score m f args = Inr sc \<and>
          (\<forall>s\<in>set pre. is_source_valid s f = Inr True \<longrightarrow>
             (\<exists>x. get_source_speed_score s f args = Inr x \<and> x < sc)))))"
proof (induction srcs arbitrary: sc0 b0)
  case Nil
  then show ?case by simp
next
  case (Cons s ss)
  from Cons.prems obtain st' where
    step: "select_step f args (sc0, b0) s = Inr st'" and
    rest: "select_loop f args st' ss = Inr (sc, b)"
    by (auto split: sum.splits)
  obtain sc1 b1 where st': "st' = (sc1, b1)" by (cases st')
  note IH = Cons.IH [OF rest [unfolded st']]
  note sc = select_step_cases [OF step [unfolded st']]
  from IH have le: "sc1 \<le> sc" by simp
  from sc have mono: "sc0 \<le> sc1" by auto
  have A: "sc0 \<le> sc" using le mono by simp
  have B: "\<forall>t\<in>set (s # ss). is_source_valid t f = Inr True \<longrightarrow>
         (\<exists>x. get_source_speed_score t f args = Inr x \<and> x \<le> sc)"
    using IH sc le by auto
  have C: "(sc = sc0 \<and> b = b0) \<or>
      (sc0 < sc \<and> (\<exists>pre m post. s # ss = pre @ m # post \<and> b = Some m \<and>
          is_source_valid m f = Inr True \<and> get_source_speed_score m f args = Inr sc \<and>
          (\<forall>s\<in>set pre. is_source_valid s f = Inr True \<longrightarrow>
             (\<exists>x. get_source_speed_score s f args = Inr x \<and> x < sc))))"
  proof (cases "sc = sc1 \<and> b = b1")
    case True
    show ?thesis
    proof (cases "sc1 = sc0 \<and> b1 = b0")
      case True
      with \<open>sc = sc1 \<and> b = b1\<close> show ?thesis by simp
    next
      case False
      with sc have sel: "is_source_valid s f = Inr True"
        "get_source_speed_score s f args = Inr sc1" "sc0 < sc1" "b1 = Some s"
        by auto
      have "s # ss = [] @ s # ss" by simp
      with sel True show ?thesis by (intro disjI2 conjI exI [of _ "[]"] exI [of _ s] exI [of _ ss]) auto
    qed
  next
    case False
    with IH obtain pre m post where
      later: "sc1 < sc" "ss = pre @ m # post" "b = Some m"
        "is_source_valid m f = Inr True" "get_source_speed_score m f args = Inr sc"
        "\<forall>t\<in>set pre. is_source_valid t f = Inr True \<longrightarrow>
             (\<exists>x. get_source_speed_score t f args = Inr x \<and> x < sc)"
      by auto
    have hd: "is_source_valid s f = Inr True \<longrightarrow>
             (\<exists>x. get_source_speed_score s f args = Inr x \<and> x < sc)"
      using sc later(1) by auto
    have "s # ss = (s # pre) @ m # post" using later(2) by simp
    moreover have "sc0 < sc" using mono later(1) by simp
    ultimately show ?thesis
      using later hd
      by (intro disjI2 conjI exI [of _ "s # pre"] exI [of _ m] exI [of _ post]) auto
  qed
  from A B C show ?case by blast
qed


lemma get_source_method_selected:
  assumes "get_source_method sys srcs f args = Inr m"
  shows "\<exists>pre post sc. srcs = pre @ m # post \<and> is_source_valid m f = Inr True \<and>
           get_source_speed_score m f args = Inr sc \<and> 0 < sc \<and>
           (\<forall>s\<in>set pre. is_source_valid s f = Inr True \<longrightarrow>
              (\<exists>x. get_source_speed_score s f args = Inr x \<and> x < sc)) \<and>
           (\<forall>s\<in>set post. is_source_valid s f = Inr True \<longrightarrow>
              (\<exists>x. get_source_speed_score s f args = Inr x \<and> x \<le> sc))"
proof -
  from assms obtain sc where loop: "select_loop f args (0, None) srcs = Inr (sc, Some m)"
    by (auto simp: get_source_method_def split: sum.splits option.splits prod.splits)
  note ch = select_loop_char [OF loop]
  from ch obtain pre m' post where
    d: "0 < sc" "srcs = pre @ m' # post" "Some m = Some m'"
       "is_source_valid m' f = Inr True" "get_source_speed_score m' f args = Inr sc"
       "\<forall>s\<in>set pre. is_source_valid s f = Inr True \<longrightarrow>
             (\<exists>x. get_source_speed_score s f args = Inr x \<and> x < sc)"
    by auto
  from ch have all: "\<forall>s\<in>set srcs. is_source_valid s f = Inr True \<longrightarrow>
         (\<exists>x. get_source_speed_score s f args = Inr x \<and> x \<le> sc)" by simp
  have post: "\<forall>s\<in>set post. is_source_valid s f = Inr True \<longrightarrow>
         (\<exists>x. get_source_speed_score s f args = Inr x \<and> x \<le> sc)"
    using all d(2) by simp
  from d post show ?thesis by blast
qed

lemma select_loop_none:
  "select_loop f args (sc0, None) srcs = Inr (sc, None) \<Longrightarrow>
     sc = sc0 \<and> (\<forall>s\<in>set srcs. is_source_valid s f = Inr True \<longrightarrow>
         (\<exists>x. get_source_speed_score s f args = Inr x \<and> x \<le> sc0))"
  using select_loop_char [of f args sc0 None srcs sc None] by auto

lemma getattr_set_priority:
  "getattr (set_priority p s) a = (if a = ''priority'' then Some (Value p) else getattr s a)"
  by (auto simp: getattr_def set_priority_def AList.update_conv' split: option.splits)

lemma hasattr_set_priority:
  "dict_contains ''priority'' (src_kwargs s) \<Longrightarrow> hasattr (set_priority p s) a = hasattr s a"
proof (cases "a = ''priority''")
  case True
  assume "dict_contains ''priority'' (src_kwargs s)"
  then have "getattr s ''priority'' \<noteq> None"
    by (auto simp: getattr_def dict_contains_def)
  with True show ?thesis by (simp add: hasattr_def getattr_set_priority)
next
  case False
  then show ?thesis by (simp add: hasattr_def getattr_set_priority)
qed

lemma is_source_valid_set_priority:
  "dict_contains ''priority'' (src_kwargs s) \<Longrightarrow>
     is_source_valid (set_priority p s) f = is_source_valid s f"
  by (simp add: is_source_valid_def hasattr_set_priority getattr_set_priority)

lemma speed_score_set_priority:
  "dict_contains ''priority'' (src_kwargs s) \<Longrightarrow>
     get_source_speed_score (set_priority p s) f args = get_source_speed_score s f args"
proof (cases "f = ''priority''")
  case True
  assume "dict_contains ''priority'' (src_kwargs s)"
  then obtain v where "getattr s ''priority'' = Some (Value v)"
    by (auto simp: getattr_def dict_contains_def)
  with True show ?thesis by (simp add: get_source_speed_score_def getattr_set_priority)
next
  case False
  then show ?thesis by (simp add: get_source_speed_score_def getattr_set_priority)
qed

lemma select_step_set_priority:
  assumes "dict_contains ''priority'' (src_kwargs s)"
  shows "select_step f args (sc, map_option (\<lambda>s. set_priority (p s) s) b) (set_priority (p s) s) =
         map_sum id (map_prod id (map_option (\<lambda>s. set_priority (p s) s)))
           (select_step f args (sc, b) s)"
  by (simp add: select_step_def is_source_valid_set_priority [OF assms]
        speed_score_set_priority [OF assms] split: sum.splits bool.splits)

lemma select_loop_set_priority:
  assumes "\<forall>s\<in>set srcs. dict_contains ''priority'' (src_kwargs s)"
  shows "select_loop f args (sc, map_option (\<lambda>s. set_priority (p s) s) b)
           (map (\<lambda>s. set_priority (p s) s) srcs) =
         map_sum id (map_prod id (map_option (\<lambda>s. set_priority (p s) s)))
           (select_loop f args (sc, b) srcs)"
  using assms
proof (induction srcs arbitrary: sc b)
  case Nil
  then show ?case by simp
next
  case (Cons s ss)
  then have c: "dict_contains ''priority'' (src_kwargs s)" by simp
  show ?case
  proof (cases "select_step f args (sc, b) s")
    case (Inl e)
    then show ?thesis by (simp add: select_step_set_priority [OF c])
  next
    case (Inr st)
    obtain sc1 b1 where "st = (sc1, b1)" by (cases st)
    with Inr Cons show ?thesis by (simp add: select_step_set_priority [OF c])
  qed
qed

lemma get_source_method_set_priority:
  assumes "\<forall>s\<in>set srcs. dict_contains ''priority'' (src_kwargs s)"
  shows "get_source_method sys (map (\<lambda>s. set_priority (p s) s) srcs) f args =
         map_sum id (\<lambda>s. set_priority (p s) s) (get_source_method sys srcs f args)"
proof -
  have "select_loop f args (0, None) (map (\<lambda>s. set_priority (p s) s) srcs) =
         map_sum id (map_prod id (map_option (\<lambda>s. set_priority (p s) s)))
           (select_loop f args (0, None) srcs)"
    using select_loop_set_priority [OF assms, of f args 0 p None] by simp
  then show ?thesis
    by (simp add: get_source_method_def split: sum.splits option.splits prod.splits)
qed

lemma step_displaces:
  "select_step f args (sc, cur) s = Inr (sc', cur') \<Longrightarrow> (sc', cur') \<noteq> (sc, cur) \<Longrightarrow>
     is_source_valid s f = Inr True \<and> get_source_speed_score s f args = Inr sc' \<and>
     sc < sc' \<and> cur' = Some s"
  by (auto dest!: select_step_cases)

lemma step_tie:
  "get_source_speed_score s f args = Inr x \<Longrightarrow> x \<le> sc \<Longrightarrow> is_source_valid s f = Inr v \<Longrightarrow>
     select_step f args (sc, cur) s = Inr (sc, cur)"
  by (auto simp: select_step_def split: sum.splits bool.splits)

lemma speed_score_formula:
  "getattr s f = Some (Method (Some idx)) \<Longrightarrow>
     get_source_speed_score s f args =
       Inr (dict_get idx ''base'' 0 + sum_list (map (\<lambda>a. dict_get idx a 0) (dict_keys args)))"
  by (simp add: get_source_speed_score_def foldl_add_sum_list)

text \<open>
  When no call in the loop raises, \<open>NoSupportedSourcesFound\<close> is raised exactly when no
  valid source has a score above 0, the initial value of \<open>speed_score\<close>.
\<close>

lemma select_loop_unchanged:
  "\<forall>s\<in>set srcs. is_source_valid s f = Inr False \<or>
       (is_source_valid s f = Inr True \<and>
        (\<exists>x. get_source_speed_score s f args = Inr x \<and> x \<le> sc0)) \<Longrightarrow>
     select_loop f args (sc0, b0) srcs = Inr (sc0, b0)"
  by (induction srcs) (auto simp: select_step_def)

lemma select_loop_total:
  "\<forall>s\<in>set srcs. is_source_valid s f = Inr False \<or>
       (is_source_valid s f = Inr True \<and> (\<exists>x. get_source_speed_score s f args = Inr x)) \<Longrightarrow>
     \<exists>st. select_loop f args st0 srcs = Inr st"
proof (induction srcs arbitrary: st0)
  case Nil
  then show ?case by simp
next
  case (Cons s ss)
  from Cons.prems have "\<exists>st1. select_step f args st0 s = Inr st1"
    by (auto simp: select_step_def)
  then obtain st1 where "select_step f args st0 s = Inr st1" ..
  moreover have "\<exists>st. select_loop f args st1 ss = Inr st"
    using Cons.IH [of st1] Cons.prems by simp
  ultimately show ?case by simp
qed

lemma get_source_method_raises_iff:
  assumes "\<forall>s\<in>set srcs. is_source_valid s f = Inr False \<or>
       (is_source_valid s f = Inr True \<and> (\<exists>x. get_source_speed_score s f args = Inr x))"
  shows "get_source_method sys srcs f args = Inl (NoSupportedSourcesFound sys f) \<longleftrightarrow>
         (\<forall>s\<in>set srcs. is_source_valid s f = Inr True \<longrightarrow>
            (\<exists>x. get_source_speed_score s f args = Inr x \<and> x \<le> 0))"
proof
  assume "get_source_method sys srcs f args = Inl (NoSupportedSourcesFound sys f)"
  moreover obtain st where "select_loop f args (0, None) srcs = Inr st"
    using select_loop_total [OF assms] by blast
  ultimately obtain sc where "select_loop f args (0, None) srcs = Inr (sc, None)"
    by (auto simp: get_source_method_def split: sum.splits option.splits prod.splits)
  from select_loop_none [OF this]
  show "\<forall>s\<in>set srcs. is_source_valid s f = Inr True \<longrightarrow>
            (\<exists>x. get_source_speed_score s f args = Inr x \<and> x \<le> 0)" by simp
next
  assume "\<forall>s\<in>set srcs. is_source_valid s f = Inr True \<longrightarrow>
            (\<exists>x. get_source_speed_score s f args = Inr x \<and> x \<le> 0)"
  with assms have "\<forall>s\<in>set srcs. is_source_valid s f = Inr False \<or>
       (is_source_valid s f = Inr True \<and>
        (\<exists>x. get_source_speed_score s f args = Inr x \<and> x \<le> 0))" by blast
  from select_loop_unchanged [OF this]
  show "get_source_method sys srcs f args = Inl (NoSupportedSourcesFound sys f)"
    by (simp add: get_source_method_def)
qed

text \<open>
  Claim C10. A \<open>Source\<close> built without the keyword \<open>enabled\<close> reads \<open>enabled == True\<close>, one
  built without \<open>priority\<close> reads \<open>priority == 0\<close>, and a value given for either keyword is
  the value read back. So \<open>is_source_valid\<close> never raises on a constructed source, and it
  accepts the source for an operation exactly when the source has the attribute and was
  not given a false \<open>enabled\<close>.
\<close>

theorem Source_init_defaults:
  "getattr (Source_init ms n d kw) ''enabled'' =
     Some (Value (case map_of kw ''enabled'' of None \<Rightarrow> PBool True | Some v \<Rightarrow> v))
   \<and> getattr (Source_init ms n d kw) ''priority'' =
     Some (Value (case map_of kw ''priority'' of None \<Rightarrow> PInt 0 | Some v \<Rightarrow> v))
   \<and> is_source_valid (Source_init ms n d kw) f =
     Inr ((case map_of kw ''enabled'' of None \<Rightarrow> True | Some v \<Rightarrow> truthy v)
          \<and> hasattr (Source_init ms n d kw) f)"
  using Source_init_getattr_enabled [of ms n d kw] Source_init_getattr_priority [of ms n d kw]
    Source_init_valid [of ms n d kw f]
  by simp

theorem Source_init_defaults_witness:
  "getattr (Source_init [(''get_jobs'', Some [(''base'', 2)])] ''j'' ''jenkins''
      [(''url'', PStr ''u'')]) ''enabled'' = Some (Value (PBool True))
   \<and> getattr (Source_init [(''get_jobs'', Some [(''base'', 2)])] ''j'' ''jenkins''
      [(''url'', PStr ''u'')]) ''priority'' = Some (Value (PInt 0))
   \<and> is_source_valid (Source_init [(''get_jobs'', Some [(''base'', 2)])] ''j'' ''jenkins''
      [(''url'', PStr ''u'')]) ''get_jobs'' = Inr True"
proof -
  have h: "hasattr (Source_init [(''get_jobs'', Some [(''base'', 2)])] ''j'' ''jenkins''
      [(''url'', PStr ''u'')]) ''get_jobs''"
    by code_simp
  show ?thesis
    using Source_init_defaults [of "[(''get_jobs'', Some [(''base'', 2)])]" "''j''" "''jenkins''"
        "[(''url'', PStr ''u'')]" "''get_jobs''"] h
    by simp
qed

text \<open>
  Claim C2 at a failing input. The list holds one source; it is enabled and has the
  attribute \<open>get_builds\<close>, so \<open>is_source_valid\<close> accepts it. Its score is 0, which is not
  above the initial \<open>speed_score = 0\<close>, so no method is selected and
  \<open>NoSupportedSourcesFound\<close> is raised although an enabled source declares the operation.
\<close>

theorem get_source_method_zero_score:
  "is_source_valid src_zero ''get_builds'' = Inr True
   \<and> get_source_speed_score src_zero ''get_builds'' ([] :: argument dict) = Inr 0
   \<and> get_source_method ''sys'' [src_zero] ''get_builds'' ([] :: argument dict) =
       Inl (NoSupportedSourcesFound ''sys'' ''get_builds'')"
  by code_simp

text \<open>
  Claim C3. (1) The score of a candidate is the base score of the operation plus the sum,
  over the supplied flags, of the extra score of each flag. (2) A step of the loop changes
  the selection only for a valid source whose score is strictly greater than the current
  one, and then selects that source. (3) The source returned is in the list, valid, with a
  positive score; every valid source attached before it scores strictly less and every
  valid source attached after it scores no more: on equal scores the earliest is kept.
  (4) Changing the priorities of the sources does not change which source is returned.
\<close>

theorem resolver_selection:
  "(getattr s f = Some (Method (Some idx)) \<longrightarrow>
      get_source_speed_score s f args =
        Inr (dict_get idx ''base'' 0 + sum_list (map (\<lambda>a. dict_get idx a 0) (dict_keys args))))
   \<and> (select_step f args (sc, cur) s = Inr (sc', cur') \<and> (sc', cur') \<noteq> (sc, cur) \<longrightarrow>
        is_source_valid s f = Inr True \<and> get_source_speed_score s f args = Inr sc' \<and>
        sc < sc' \<and> cur' = Some s)
   \<and> (get_source_method sys srcs f args = Inr m \<longrightarrow>
        (\<exists>pre post best. srcs = pre @ m # post \<and> is_source_valid m f = Inr True \<and>
           get_source_speed_score m f args = Inr best \<and> 0 < best \<and>
           (\<forall>t\<in>set pre. is_source_valid t f = Inr True \<longrightarrow>
              (\<exists>x. get_source_speed_score t f args = Inr x \<and> x < best)) \<and>
           (\<forall>t\<in>set post. is_source_valid t f = Inr True \<longrightarrow>
              (\<exists>x. get_source_speed_score t f args = Inr x \<and> x \<le> best))))
   \<and> ((\<forall>t\<in>set srcs. dict_contains ''priority'' (src_kwargs t)) \<longrightarrow>
        get_source_method sys (map (\<lambda>t. set_priority (p t) t) srcs) f args =
          map_sum id (\<lambda>t. set_priority (p t) t) (get_source_method sys srcs f args))"
proof (intro conjI impI)
  assume "getattr s f = Some (Method (Some idx))"
  then show "get_source_speed_score s f args =
        Inr (dict_get idx ''base'' 0 + sum_list (map (\<lambda>a. dict_get idx a 0) (dict_keys args)))"
    by (rule speed_score_formula)
next
  assume a: "select_step f args (sc, cur) s = Inr (sc', cur') \<and> (sc', cur') \<noteq> (sc, cur)"
  then have r: "is_source_valid s f = Inr True \<and> get_source_speed_score s f args = Inr sc' \<and>
     sc < sc' \<and> cur' = Some s"
    using step_displaces [of f args sc cur s sc' cur'] by blast
  from r show "is_source_valid s f = Inr True" by simp
  from r show "get_source_speed_score s f args = Inr sc'" by simp
  from r show "sc < sc'" by simp
  from r show "cur' = Some s" by simp
next
  assume "get_source_method sys srcs f args = Inr m"
  then show "\<exists>pre post best. srcs = pre @ m # post \<and> is_source_valid m f = Inr True \<and>
           get_source_speed_score m f args = Inr best \<and> 0 < best \<and>
           (\<forall>t\<in>set pre. is_source_valid t f = Inr True \<longrightarrow>
              (\<exists>x. get_source_speed_score t f args = Inr x \<and> x < best)) \<and>
           (\<forall>t\<in>set post. is_source_valid t f = Inr True \<longrightarrow>
              (\<exists>x. get_source_speed_score t f args = Inr x \<and> x \<le> best))"
    by (rule get_source_method_selected)
next
  assume "\<forall>t\<in>set srcs. dict_contains ''priority'' (src_kwargs t)"
  then show "get_source_method sys (map (\<lambda>t. set_priority (p t) t) srcs) f args =
          map_sum id (\<lambda>t. set_priority (p t) t) (get_source_method sys srcs f args)"
    by (rule get_source_method_set_priority)
qed

theorem resolver_selection_witness:
  "getattr src_Y ''get_builds'' = Some (Method (Some [(''base'', 2), (''last_build'', 1)]))
   \<and> get_source_speed_score src_Y ''get_builds'' args_last_build = Inr 3
   \<and> select_step ''get_builds'' args_last_build (1, Some src_X) src_Y = Inr (3, Some src_Y)
   \<and> (3::int, Some src_Y) \<noteq> (1, Some src_X)
   \<and> get_source_method ''sys'' [src_X, src_Y, src_Z] ''get_builds'' args_last_build = Inr src_Y
   \<and> (\<exists>pre post best. [src_X, src_Y, src_Z] = pre @ src_Y # post \<and>
         get_source_speed_score src_Y ''get_builds'' args_last_build = Inr best \<and> 0 < best \<and>
         (\<forall>t\<in>set pre. is_source_valid t ''get_builds'' = Inr True \<longrightarrow>
            (\<exists>x. get_source_speed_score t ''get_builds'' args_last_build = Inr x \<and> x < best)) \<and>
         (\<forall>t\<in>set post. is_source_valid t ''get_builds'' = Inr True \<longrightarrow>
            (\<exists>x. get_source_speed_score t ''get_builds'' args_last_build = Inr x \<and> x \<le> best)))
   \<and> dict_contains ''priority'' (src_kwargs src_X)
   \<and> dict_contains ''priority'' (src_kwargs src_Y)
   \<and> dict_contains ''priority'' (src_kwargs src_Z)
   \<and> get_source_method ''sys'' (map (\<lambda>t. set_priority (PInt 9) t) [src_X, src_Y, src_Z])
         ''get_builds'' args_last_build = Inr (set_priority (PInt 9) src_Y)"
proof -
  note T = resolver_selection [of src_Y "''get_builds''" "[(''base'', 2), (''last_build'', 1)]"
      args_last_build 1 "Some src_X" 3 "Some src_Y" "''sys''" "[src_X, src_Y, src_Z]" src_Y
      "\<lambda>t. PInt 9"]
  have h1: "getattr src_Y ''get_builds'' = Some (Method (Some [(''base'', 2), (''last_build'', 1)]))"
    by code_simp
  have h2: "select_step ''get_builds'' args_last_build (1, Some src_X) src_Y = Inr (3, Some src_Y)"
    by code_simp
  have h2': "(3::int, Some src_Y) \<noteq> (1, Some src_X)" by simp
  have h3: "get_source_method ''sys'' [src_X, src_Y, src_Z] ''get_builds'' args_last_build = Inr src_Y"
    by code_simp
  have h4: "\<forall>t\<in>set [src_X, src_Y, src_Z]. dict_contains ''priority'' (src_kwargs t)"
    by code_simp
  have c1: "get_source_speed_score src_Y ''get_builds'' args_last_build = Inr 3"
    using T h2 h2' by blast
  have c3: "\<exists>pre post best. [src_X, src_Y, src_Z] = pre @ src_Y # post \<and>
         get_source_speed_score src_Y ''get_builds'' args_last_build = Inr best \<and> 0 < best \<and>
         (\<forall>t\<in>set pre. is_source_valid t ''get_builds'' = Inr True \<longrightarrow>
            (\<exists>x. get_source_speed_score t ''get_builds'' args_last_build = Inr x \<and> x < best)) \<and>
         (\<forall>t\<in>set post. is_source_valid t ''get_builds'' = Inr True \<longrightarrow>
            (\<exists>x. get_source_speed_score t ''get_builds'' args_last_build = Inr x \<and> x \<le> best))"
    using T h3 by blast
  have c4: "get_source_method ''sys'' (map (\<lambda>t. set_priority (PInt 9) t) [src_X, src_Y, src_Z])
         ''get_builds'' args_last_build = Inr (set_priority (PInt 9) src_Y)"
    using T h4 h3 by simp
  have h5: "dict_contains ''priority'' (src_kwargs src_X)"
    "dict_contains ''priority'' (src_kwargs src_Y)"
    "dict_contains ''priority'' (src_kwargs src_Z)"
    using h4 by simp_all
  from h1 h2 h2' h3 h5 c1 c3 c4 show ?thesis by blast
qed

section \<open>The merge engine\<close>

subsection \<open>Collections of children\<close>

lemma foldl_unchanged: "(\<And>c. c \<in> set cs \<Longrightarrow> f d c = d) \<Longrightarrow> foldl f d cs = d"
  by (induction cs) simp_all

lemma keys_add_child: "fst ` set (add_child key m d c) = insert (key c) (fst ` set d)"
  by (simp add: add_child_def AList.dom_update split: option.splits)

lemma keys_foldl_add_child:
  "fst ` set (foldl (add_child key m) d cs) = fst ` set d \<union> key ` set cs"
  by (induction cs arbitrary: d) (auto simp: keys_add_child)

lemma map_of_add_child:
  "map_of (add_child key m d c) k =
     (if k = key c then Some (case map_of d k of Some e \<Rightarrow> m e c | None \<Rightarrow> c)
      else map_of d k)"
  by (simp add: add_child_def AList.update_conv' split: option.splits)

lemma add_child_fixed:
  "map_of d (key c) = Some e \<Longrightarrow> m e c = e \<Longrightarrow> add_child key m d c = d"
  by (simp add: add_child_def AList.update_triv)

lemma add_child_twice:
  assumes "m c c = c" and "\<And>e. m (m e c) c = m e c"
  shows "add_child key m (add_child key m d c) c = add_child key m d c"
proof -
  obtain e where "map_of (add_child key m d c) (key c) = Some e" "m e c = e"
    using assms by (auto simp: map_of_add_child split: option.splits)
  then show ?thesis by (rule add_child_fixed)
qed

lemma merged_children_fixed:
  assumes "distinct (map key cs)"
    and "\<And>c. c \<in> set cs \<Longrightarrow> m c c = c"
    and "\<And>e c. c \<in> set cs \<Longrightarrow> m (m e c) c = m e c"
    and "c \<in> set cs"
  shows "\<exists>e. map_of (foldl (add_child key m) d cs) (key c) = Some e \<and> m e c = e"
  using assms
proof (induction cs rule: rev_induct)
  case Nil
  then show ?case by simp
next
  case (snoc x xs)
  show ?case
  proof (cases "c = x")
    case True
    with snoc.prems show ?thesis
      by (auto simp: map_of_add_child split: option.splits)
  next
    case False
    with snoc.prems have c: "c \<in> set xs" by simp
    from snoc.prems have "key x \<notin> key ` set xs" by simp
    with c have ne: "key c \<noteq> key x" by (metis imageI)
    from snoc.prems have "distinct (map key xs)" by simp
    moreover have "\<And>c. c \<in> set xs \<Longrightarrow> m c c = c" using snoc.prems(2) by simp
    moreover have "\<And>e c. c \<in> set xs \<Longrightarrow> m (m e c) c = m e c" using snoc.prems(3) by simp
    ultimately have "\<exists>e. map_of (foldl (add_child key m) d xs) (key c) = Some e \<and> m e c = e"
      using c by (rule snoc.IH)
    then show ?thesis using ne by (simp add: map_of_add_child)
  qed
qed

lemma merge_children_twice:
  assumes "distinct (map key cs)"
    and "\<And>c. c \<in> set cs \<Longrightarrow> m c c = c"
    and "\<And>e c. c \<in> set cs \<Longrightarrow> m (m e c) c = m e c"
  shows "foldl (add_child key m) (foldl (add_child key m) d cs) cs =
         foldl (add_child key m) d cs"
proof (rule foldl_unchanged)
  fix c assume "c \<in> set cs"
  have "\<exists>e. map_of (foldl (add_child key m) d cs) (key c) = Some e \<and> m e c = e"
    by (rule merged_children_fixed [OF assms(1) _ _ \<open>c \<in> set cs\<close>]) (simp_all add: assms)
  then show "add_child key m (foldl (add_child key m) d cs) c = foldl (add_child key m) d cs"
    by (auto intro: add_child_fixed)
qed

lemma keyed_by_lookup:
  "keyed_by key d \<Longrightarrow> c \<in> set (dict_values d) \<Longrightarrow> map_of d (key c) = Some c"
  by (auto simp: keyed_by_def dict_values_def list_all_iff)

lemma keyed_by_distinct:
  "keyed_by key d \<Longrightarrow> distinct (map key (dict_values d))"
proof -
  assume k: "keyed_by key d"
  then have "map key (dict_values d) = map fst d"
    by (auto simp: keyed_by_def dict_values_def list_all_iff)
  with k show ?thesis by (simp add: keyed_by_def)
qed

lemma merge_children_self:
  assumes "keyed_by key d" and "\<And>c. c \<in> set (dict_values d) \<Longrightarrow> m c c = c"
  shows "foldl (add_child key m) d (dict_values d) = d"
proof (rule foldl_unchanged)
  fix c assume c: "c \<in> set (dict_values d)"
  from keyed_by_lookup [OF assms(1) c] assms(2) [OF c]
  show "add_child key m d c = d" by (rule add_child_fixed)
qed


subsection \<open>Merging tests\<close>

lemma Test_merge_self: "Test_merge t t = t"
  by (simp add: Test_merge_def Let_def)

lemma Test_merge_twice: "Test_merge (Test_merge e t) t = Test_merge e t"
  by (simp add: Test_merge_def Let_def)

lemma test_name_Test_merge: "test_name (Test_merge e t) = test_name e"
  by (simp add: Test_merge_def Let_def)

subsection \<open>Merging builds\<close>

lemma Build_add_test_children:
  "Build_add_test b t = b\<lparr>build_tests := add_child test_name Test_merge (build_tests b) t\<rparr>"
  by (simp add: Build_add_test_def add_child_def Let_def split: option.splits)

lemma foldl_Build_add_test:
  "foldl Build_add_test b ts =
     b\<lparr>build_tests := foldl (add_child test_name Test_merge) (build_tests b) ts\<rparr>"
  by (induction ts arbitrary: b) (simp_all add: Build_add_test_children)

lemma build_tests_Build_merge:
  "build_tests (Build_merge self other) =
     foldl (add_child test_name Test_merge) (build_tests self) (dict_values (build_tests other))"
  by (simp add: Build_merge_def foldl_Build_add_test)

lemma build_status_Build_merge:
  "build_status (Build_merge self other) =
     (if str_truthy (build_status self) then build_status self else build_status other)"
  by (simp add: Build_merge_def foldl_Build_add_test)

lemma build_id_Build_merge: "build_id (Build_merge self other) = build_id self"
  by (simp add: Build_merge_def foldl_Build_add_test)

lemma build_duration_Build_merge: "build_duration (Build_merge self other) = build_duration self"
  by (simp add: Build_merge_def foldl_Build_add_test)

lemma Build_merge_self:
  assumes "build_keyed b"
  shows "Build_merge b b = b"
proof -
  have "foldl (add_child test_name Test_merge) (build_tests b) (dict_values (build_tests b)) =
        build_tests b"
    using assms unfolding build_keyed_def
    by (rule merge_children_self) (rule Test_merge_self)
  then show ?thesis by (simp add: Build_merge_def foldl_Build_add_test)
qed

lemma Build_merge_twice:
  assumes "build_keyed b"
  shows "Build_merge (Build_merge e b) b = Build_merge e b"
proof -
  have d: "distinct (map test_name (dict_values (build_tests b)))"
    using assms unfolding build_keyed_def by (rule keyed_by_distinct)
  have t: "foldl (add_child test_name Test_merge)
          (foldl (add_child test_name Test_merge) (build_tests e) (dict_values (build_tests b)))
          (dict_values (build_tests b)) =
        foldl (add_child test_name Test_merge) (build_tests e) (dict_values (build_tests b))"
    using d by (rule merge_children_twice) (simp_all add: Test_merge_self Test_merge_twice)
  show ?thesis
    by (rule build.equality)
       (simp_all add: build_tests_Build_merge build_status_Build_merge build_id_Build_merge
          build_duration_Build_merge t)
qed

lemma Build_add_test_twice: "Build_add_test (Build_add_test b t) t = Build_add_test b t"
  by (simp add: Build_add_test_children add_child_twice Test_merge_self Test_merge_twice)

subsection \<open>Merging jobs\<close>

lemma Job_add_build_children:
  "Job_add_build j b = j\<lparr>job_builds := add_child build_id Build_merge (job_builds j) b\<rparr>"
  by (simp add: Job_add_build_def add_child_def Let_def split: option.splits)

lemma foldl_Job_add_build:
  "foldl Job_add_build j bs =
     j\<lparr>job_builds := foldl (add_child build_id Build_merge) (job_builds j) bs\<rparr>"
  by (induction bs arbitrary: j) (simp_all add: Job_add_build_children)

lemma job_builds_Job_merge:
  "job_builds (Job_merge self other) =
     foldl (add_child build_id Build_merge) (job_builds self) (dict_values (job_builds other))"
  by (simp add: Job_merge_def foldl_Job_add_build)

lemma job_url_Job_merge:
  "job_url (Job_merge self other) =
     (if str_truthy (job_url self) then job_url self else job_url other)"
  by (simp add: Job_merge_def foldl_Job_add_build)

lemma job_name_Job_merge: "job_name (Job_merge self other) = job_name self"
  by (simp add: Job_merge_def foldl_Job_add_build)

lemma Job_merge_self:
  assumes "job_keyed j"
  shows "Job_merge j j = j"
proof -
  from assms have k: "keyed_by build_id (job_builds j)"
    and c: "\<And>b. b \<in> set (dict_values (job_builds j)) \<Longrightarrow> build_keyed b"
    by (auto simp: job_keyed_def list_all_iff)
  have "foldl (add_child build_id Build_merge) (job_builds j) (dict_values (job_builds j)) =
        job_builds j"
    using k by (rule merge_children_self) (simp add: c Build_merge_self)
  then show ?thesis by (simp add: Job_merge_def foldl_Job_add_build)
qed

lemma Job_merge_twice:
  assumes "job_keyed j"
  shows "Job_merge (Job_merge e j) j = Job_merge e j"
proof -
  from assms have k: "keyed_by build_id (job_builds j)"
    and c: "\<And>b. b \<in> set (dict_values (job_builds j)) \<Longrightarrow> build_keyed b"
    by (auto simp: job_keyed_def list_all_iff)
  have d: "distinct (map build_id (dict_values (job_builds j)))"
    using k by (rule keyed_by_distinct)
  have t: "foldl (add_child build_id Build_merge)
          (foldl (add_child build_id Build_merge) (job_builds e) (dict_values (job_builds j)))
          (dict_values (job_builds j)) =
        foldl (add_child build_id Build_merge) (job_builds e) (dict_values (job_builds j))"
    using d by (rule merge_children_twice) (simp_all add: c Build_merge_self Build_merge_twice)
  show ?thesis
    by (rule job.equality)
       (simp_all add: job_builds_Job_merge job_url_Job_merge job_name_Job_merge t)
qed

lemma Job_add_build_twice:
  "build_keyed b \<Longrightarrow> Job_add_build (Job_add_build j b) b = Job_add_build j b"
  by (simp add: Job_add_build_children add_child_twice Build_merge_self Build_merge_twice)

subsection \<open>Adding to a system\<close>

text \<open>
  A string never equals a model, so the test \<open>name in self.jobs.values()\<close> of
  \<open>System.add_job\<close> is false for every system and every job, and so is the test of
  \<open>ZuulSystem.add_pipeline\<close>: both methods always store the incoming child under its
  name and never merge.
\<close>

lemma str_in_job_values_False: "str_in_job_values x vs = False"
  by (induction vs) (simp_all add: str_in_job_values_def)

lemma str_in_pipeline_values_False: "str_in_pipeline_values x vs = False"
  by (induction vs) (simp_all add: str_in_pipeline_values_def)

lemma System_add_job_stores:
  "System_add_job s j = Inr (s\<lparr>sys_jobs := AList.update (job_name j) j (sys_jobs s)\<rparr>)"
  by (simp add: System_add_job_def str_in_job_values_False)

lemma ZuulSystem_add_pipeline_stores:
  "ZuulSystem_add_pipeline s p =
     Inr (s\<lparr>sys_pipelines := AList.update (pipeline_name p) p (sys_pipelines s)\<rparr>)"
  by (simp add: ZuulSystem_add_pipeline_def str_in_pipeline_values_False)

lemma System_add_job_twice:
  "System_add_job s j = Inr s' \<Longrightarrow> System_add_job s' j = Inr s'"
  by (auto simp: System_add_job_stores)

subsection \<open>The claims about merging\<close>

text \<open>
  \<open>Job.add_build\<close> and \<open>Build.add_test\<close> look the child up by its key, merge into the
  child found and store the incoming child otherwise; merging keeps every key of the
  existing collection and adds the identity of every incoming child.
\<close>

lemma Job_add_build_lookup:
  "map_of (job_builds (Job_add_build j b)) k =
     (if k = build_id b
      then Some (case map_of (job_builds j) k of Some e \<Rightarrow> Build_merge e b | None \<Rightarrow> b)
      else map_of (job_builds j) k)"
  by (simp add: Job_add_build_children map_of_add_child)

lemma Build_add_test_lookup:
  "map_of (build_tests (Build_add_test b t)) k =
     (if k = test_name t
      then Some (case map_of (build_tests b) k of Some e \<Rightarrow> Test_merge e t | None \<Rightarrow> t)
      else map_of (build_tests b) k)"
  by (simp add: Build_add_test_children map_of_add_child)

lemma Job_merge_keeps_builds:
  "set (dict_keys (job_builds (Job_merge self other))) =
     set (dict_keys (job_builds self)) \<union> build_id ` set (dict_values (job_builds other))"
  by (simp add: job_builds_Job_merge dict_keys_def keys_foldl_add_child)

lemma Build_merge_keeps_tests:
  "set (dict_keys (build_tests (Build_merge self other))) =
     set (dict_keys (build_tests self)) \<union> test_name ` set (dict_values (build_tests other))"
  by (simp add: build_tests_Build_merge dict_keys_def keys_foldl_add_child)

text \<open>
  The worked example of two fetches: a job without builds receives the build 1 with
  status SUCCESS and then the build 1 with the test \<open>t1\<close>; it ends with one build, keyed 1,
  with status SUCCESS and the test \<open>t1\<close>.
\<close>

lemma scenario_B:
  "Job_add_build (Job_add_build \<lparr>job_name = ''j'', job_url = None, job_builds = []\<rparr> build_1)
     build_1_t1 =
   \<lparr>job_name = ''j'', job_url = None,
    job_builds = [(''1'', \<lparr>build_id = ''1'', build_status = Some ''SUCCESS'',
                          build_duration = None, build_tests = [(''t1'', test_t1)]\<rparr>)]\<rparr>"
  by code_simp

text \<open>
  Claim C1 at a failing input. The system holds a job named \<open>j\<close>; \<open>add_job\<close> receives
  another job named \<open>j\<close>. The job found under the key \<open>j\<close> is not merged with the
  incoming one: the incoming job replaces it. (\<open>Job.add_build\<close> and \<open>Build.add_test\<close> test
  the keys and do merge, see \<open>Job_add_build_lookup\<close> and \<open>Build_add_test_lookup\<close>.)
\<close>

theorem System_add_job_no_merge:
  "map_of (sys_jobs sys_old) (job_name job_new) = Some job_old
   \<and> System_add_job sys_old job_new = Inr (sys_old\<lparr>sys_jobs := [(''j'', job_new)]\<rparr>)
   \<and> System_add_job sys_old job_new \<noteq>
       Inr (sys_old\<lparr>sys_jobs := [(''j'', Job_merge job_old job_new)]\<rparr>)"
  by code_simp

text \<open>
  Claim C4 at a failing input. Before \<open>add_job\<close> the job \<open>j\<close> of the system has the build
  1; the incoming job \<open>j\<close> has the build 2. Afterwards the job \<open>j\<close> of the system has the
  build 2 only: the build 1, present on one side, is dropped. (\<open>Job.merge\<close> and
  \<open>Build.merge\<close> themselves drop nothing, see \<open>Job_merge_keeps_builds\<close> and
  \<open>Build_merge_keeps_tests\<close>.)
\<close>

theorem System_add_job_drops_builds:
  "map (\<lambda>j. dict_keys (job_builds j)) (dict_values (sys_jobs sys_old)) = [[''1'']]
   \<and> map_sum id (\<lambda>s. map (\<lambda>j. dict_keys (job_builds j)) (dict_values (sys_jobs s)))
        (System_add_job sys_old job_new) = Inr [[''2'']]"
  by code_simp

text \<open>
  Claim C5. A scalar field is unset when Python's truth test on it fails (\<open>None\<close> or the
  empty string). If the URL of the existing job is unset, the merged job has the URL of
  the incoming job; if it is set, the merged job keeps it, whatever the incoming URL is.
  The same holds for the status of a build.
\<close>

theorem scalar_first_writer_wins:
  "(\<not> str_truthy (job_url self) \<longrightarrow> job_url (Job_merge self other) = job_url other)
   \<and> (str_truthy (job_url self) \<longrightarrow> job_url (Job_merge self other) = job_url self)
   \<and> (\<not> str_truthy (build_status b) \<longrightarrow> build_status (Build_merge b c) = build_status c)
   \<and> (str_truthy (build_status b) \<longrightarrow> build_status (Build_merge b c) = build_status b)"
  by (simp add: job_url_Job_merge build_status_Build_merge)

theorem scalar_first_writer_wins_witness:
  "\<not> str_truthy (job_url job_new)
   \<and> job_url (Job_merge job_new job_other) = Some ''http://mirror/job/j''
   \<and> str_truthy (job_url job_old)
   \<and> job_url (Job_merge job_old job_other) = Some ''http://ci/job/j''
   \<and> \<not> str_truthy (build_status build_1_t1)
   \<and> build_status (Build_merge build_1_t1 build_2) = Some ''FAILURE''
   \<and> str_truthy (build_status build_1)
   \<and> build_status (Build_merge build_1 build_2) = Some ''SUCCESS''"
proof -
  have h1: "\<not> str_truthy (job_url job_new)" by code_simp
  have h2: "str_truthy (job_url job_old)" by code_simp
  have h3: "\<not> str_truthy (build_status build_1_t1)" by code_simp
  have h4: "str_truthy (build_status build_1)" by code_simp
  have v1: "job_url job_other = Some ''http://mirror/job/j''" by code_simp
  have v2: "job_url job_old = Some ''http://ci/job/j''" by code_simp
  have v3: "build_status build_2 = Some ''FAILURE''" by code_simp
  have v4: "build_status build_1 = Some ''SUCCESS''" by code_simp
  from scalar_first_writer_wins [of job_new job_other build_1_t1 build_2] h1 h3 v1 v3
  have a: "job_url (Job_merge job_new job_other) = Some ''http://mirror/job/j''"
    "build_status (Build_merge build_1_t1 build_2) = Some ''FAILURE''" by simp_all
  from scalar_first_writer_wins [of job_old job_other build_1 build_2] h2 h4 v2 v4
  have b: "job_url (Job_merge job_old job_other) = Some ''http://ci/job/j''"
    "build_status (Build_merge build_1 build_2) = Some ''SUCCESS''" by simp_all
  from h1 h2 h3 h4 a b show ?thesis by simp
qed

text \<open>
  Claim C6. Merging is idempotent at every level, for entities whose collections are keyed
  by identity as the data model requires: a test, a build or a job merged into itself is
  unchanged, and merging or adding the same incoming test, build or job a second time
  gives the result of the first time; adding the same job to a system twice gives the
  system obtained after the first time.
\<close>

theorem merge_idempotent:
  "Test_merge t t = t
   \<and> Test_merge (Test_merge t0 t) t = Test_merge t0 t
   \<and> Build_add_test (Build_add_test b0 t) t = Build_add_test b0 t
   \<and> (build_keyed b \<longrightarrow>
        Build_merge b b = b
        \<and> Build_merge (Build_merge b0 b) b = Build_merge b0 b
        \<and> Job_add_build (Job_add_build j0 b) b = Job_add_build j0 b)
   \<and> (job_keyed j \<longrightarrow>
        Job_merge j j = j
        \<and> Job_merge (Job_merge j0 j) j = Job_merge j0 j)
   \<and> (System_add_job s j1 = Inr s' \<longrightarrow> System_add_job s' j1 = Inr s')"
  using Test_merge_self [of t] Test_merge_twice [of t0 t] Build_add_test_twice [of b0 t]
    Build_merge_self [of b] Build_merge_twice [of b b0] Job_add_build_twice [of b j0]
    Job_merge_self [of j] Job_merge_twice [of j j0] System_add_job_twice [of s j1 s']
  by blast

theorem merge_idempotent_witness:
  "build_keyed build_1_t1
   \<and> Build_merge build_1_t1 build_1_t1 = build_1_t1
   \<and> Build_merge (Build_merge build_1 build_1_t1) build_1_t1 = Build_merge build_1 build_1_t1
   \<and> Job_add_build (Job_add_build job_old build_1_t1) build_1_t1 =
       Job_add_build job_old build_1_t1
   \<and> job_keyed job_other
   \<and> Job_merge job_other job_other = job_other
   \<and> Job_merge (Job_merge job_old job_other) job_other = Job_merge job_old job_other
   \<and> System_add_job sys_old job_new = Inr (sys_old\<lparr>sys_jobs := [(''j'', job_new)]\<rparr>)
   \<and> System_add_job (sys_old\<lparr>sys_jobs := [(''j'', job_new)]\<rparr>) job_new =
       Inr (sys_old\<lparr>sys_jobs := [(''j'', job_new)]\<rparr>)"
proof -
  note T = merge_idempotent [of test_t1 test_t1 build_1 build_1_t1 job_old job_other
      sys_old job_new "sys_old\<lparr>sys_jobs := [(''j'', job_new)]\<rparr>"]
  have h1: "build_keyed build_1_t1" by code_simp
  have h2: "job_keyed job_other" by code_simp
  have h3: "System_add_job sys_old job_new = Inr (sys_old\<lparr>sys_jobs := [(''j'', job_new)]\<rparr>)"
    by code_simp
  from T h1 h2 h3 show ?thesis by blast
qed

section \<open>The validator\<close>

text \<open>
  The test of \<open>_consistent_system\<close> is the test that the specification words, and the
  second loop returns the surviving environments, in order, with their surviving systems.
\<close>

lemma consistent_system_survives: "consistent_system ci = system_survives ci"
  by (rule ext)
     (auto simp: consistent_system_def system_survives_def Let_def list_ex_iff
        split: option.splits)

lemma filter_loop_survivors:
  "filter_loop ci envs (user_envs, user_systems) =
     (user_envs @ surviving_environments ci envs,
      user_systems @ concat (map env_systems (surviving_environments ci envs)))"
proof (induction envs arbitrary: user_envs user_systems)
  case Nil
  then show ?case by (simp add: surviving_environments_def)
next
  case (Cons env envs)
  have f: "filter (consistent_system ci) (env_systems env) =
           filter (system_survives ci) (env_systems env)"
    by (simp add: consistent_system_survives)
  show ?case
    by (simp add: Cons.IH f surviving_environments_def Let_def)
qed

lemma check_input_passes:
  "(case map_of ci argument of None \<Rightarrow> True | Some a \<Rightarrow> set (arg_value a) \<subseteq> set names) \<Longrightarrow>
     check_input_environments ci names argument exc = Inr ()"
proof (cases "map_of ci argument")
  case None
  then show ?thesis by (simp add: check_input_environments_def)
next
  case (Some a)
  assume "case map_of ci argument of None \<Rightarrow> True | Some a \<Rightarrow> set (arg_value a) \<subseteq> set names"
  with Some have "set (arg_value a) \<subseteq> set names" by simp
  then have "find (\<lambda>n. n \<notin> set names) (arg_value a) = None"
    by (auto simp: find_None_iff)
  with Some show ?thesis by (simp add: check_input_environments_def)
qed

lemma check_input_raises:
  assumes "map_of ci argument = Some a" and "\<not> set (arg_value a) \<subseteq> set names"
  shows "\<exists>bad. find (\<lambda>n. n \<notin> set names) (arg_value a) = Some bad \<and>
           bad \<in> set (arg_value a) \<and> bad \<notin> set names \<and>
           check_input_environments ci names argument exc = Inl (exc bad names)"
proof -
  from assms(2) have "find (\<lambda>n. n \<notin> set names) (arg_value a) \<noteq> None"
    by (auto simp: find_None_iff)
  then obtain bad where b: "find (\<lambda>n. n \<notin> set names) (arg_value a) = Some bad" by auto
  then have "bad \<in> set (arg_value a)" "bad \<notin> set names"
    by (auto simp: find_Some_iff)
  with b assms(1) show ?thesis by (simp add: check_input_environments_def)
qed

lemma validate_invalid_environment:
  assumes "map_of ci ''env_name'' = Some a"
    and "\<not> set (arg_value a) \<subseteq> set (map env_name envs)"
  shows "\<exists>bad. find (\<lambda>n. n \<notin> set (map env_name envs)) (arg_value a) = Some bad \<and>
           bad \<in> set (arg_value a) \<and> bad \<notin> set (map env_name envs) \<and>
           validate_environments ci envs = Inl (InvalidEnvironment_init bad (map env_name envs))"
proof -
  from check_input_raises [OF assms, of InvalidEnvironment_init]
  obtain bad where b: "find (\<lambda>n. n \<notin> set (map env_name envs)) (arg_value a) = Some bad"
    "bad \<in> set (arg_value a)" "bad \<notin> set (map env_name envs)"
    "check_input_environments ci (map env_name envs) ''env_name'' InvalidEnvironment_init =
       Inl (InvalidEnvironment_init bad (map env_name envs))"
    by blast
  from b(4) have "validate_environments ci envs =
      Inl (InvalidEnvironment_init bad (map env_name envs))"
    by (simp add: validate_environments_def Let_def)
  with b show ?thesis by blast
qed

lemma validate_invalid_system:
  assumes "case map_of ci ''env_name'' of None \<Rightarrow> True
           | Some a \<Rightarrow> set (arg_value a) \<subseteq> set (map env_name envs)"
    and "map_of ci ''systems'' = Some b"
    and "\<not> set (arg_value b) \<subseteq> set (concat (map (\<lambda>env. map sys_name (env_systems env)) envs))"
  shows "\<exists>bad. find (\<lambda>n. n \<notin> set (concat (map (\<lambda>env. map sys_name (env_systems env)) envs)))
                  (arg_value b) = Some bad \<and>
           bad \<in> set (arg_value b) \<and>
           bad \<notin> set (concat (map (\<lambda>env. map sys_name (env_systems env)) envs)) \<and>
           validate_environments ci envs =
             Inl (InvalidSystem_init bad (concat (map (\<lambda>env. map sys_name (env_systems env)) envs)))"
proof -
  let ?all = "concat (map (\<lambda>env. map sys_name (env_systems env)) envs)"
  from check_input_raises [OF assms(2) assms(3), of InvalidSystem_init]
  obtain bad where b: "bad \<in> set (arg_value b)" "bad \<notin> set ?all"
    "check_input_environments ci ?all ''systems'' InvalidSystem_init =
       Inl (InvalidSystem_init bad ?all)"
    "find (\<lambda>n. n \<notin> set ?all) (arg_value b) = Some bad"
    by blast
  from check_input_passes [OF assms(1), of InvalidEnvironment_init] b(3)
  have "validate_environments ci envs = Inl (InvalidSystem_init bad ?all)"
    by (simp add: validate_environments_def Let_def)
  with b show ?thesis by blast
qed

lemma validate_filters:
  assumes "case map_of ci ''env_name'' of None \<Rightarrow> True
           | Some a \<Rightarrow> set (arg_value a) \<subseteq> set (map env_name envs)"
    and "case map_of ci ''systems'' of None \<Rightarrow> True
           | Some a \<Rightarrow> set (arg_value a) \<subseteq>
               set (concat (map (\<lambda>env. map sys_name (env_systems env)) envs))"
  shows "validate_environments ci envs =
     (if concat (map env_systems (surviving_environments ci envs)) = []
      then Inl (NoValidSystem_init (concat (map (\<lambda>env. map sys_name (env_systems env)) envs)))
      else Inr (surviving_environments ci envs,
                concat (map env_systems (surviving_environments ci envs))))"
  using check_input_passes [OF assms(1), of InvalidEnvironment_init]
    check_input_passes [OF assms(2), of InvalidSystem_init]
    filter_loop_survivors [of ci envs "[]" "[]"]
  by (simp add: validate_environments_def Let_def)

lemma validate_returns:
  assumes "validate_environments ci envs = Inr (user_envs, user_systems)"
  shows "user_envs = surviving_environments ci envs"
    and "user_systems = concat (map env_systems user_envs)"
    and "user_systems \<noteq> []"
  using assms filter_loop_survivors [of ci envs "[]" "[]"]
  by (auto simp: validate_environments_def Let_def split: sum.splits if_splits)

lemma surviving_environments_props:
  assumes "e \<in> set (surviving_environments ci envs)"
  shows "env_systems e \<noteq> []"
    and "\<forall>s\<in>set (env_systems e). system_survives ci s"
    and "case map_of ci ''env_name'' of None \<Rightarrow> True | Some a \<Rightarrow> env_name e \<in> set (arg_value a)"
  using assms
  by (auto simp: surviving_environments_def consistent_environment_def split: option.splits)

lemma system_survives_sources:
  "system_survives ci s \<Longrightarrow> map_of ci ''sources'' = Some a \<Longrightarrow>
     \<exists>src\<in>set (sys_sources s). src_name src \<in> set (arg_value a)"
  by (auto simp: system_survives_def list_ex_iff split: option.splits)

text \<open>
  Claim C7. If a requested environment name is not among the configured environment
  names, \<open>validate_environments\<close> raises \<open>InvalidEnvironment\<close> for the first such name,
  whatever the other arguments request: nothing is filtered and nothing is returned. Its
  message names the offending name and lists the configured environment names. If the
  requested environment names are all configured and a requested system name is not
  among the configured system names, it raises \<open>InvalidSystem\<close> for the first such name,
  with the list of the configured system names.
\<close>

theorem validator_existence_first:
  "(map_of ci ''env_name'' = Some a \<and> \<not> set (arg_value a) \<subseteq> set (map env_name envs) \<longrightarrow>
      (\<exists>bad. find (\<lambda>n. n \<notin> set (map env_name envs)) (arg_value a) = Some bad \<and>
         bad \<in> set (arg_value a) \<and> bad \<notin> set (map env_name envs) \<and>
         validate_environments ci envs = Inl (InvalidEnvironment_init bad (map env_name envs))))
   \<and> ((case map_of ci ''env_name'' of None \<Rightarrow> True
        | Some a \<Rightarrow> set (arg_value a) \<subseteq> set (map env_name envs)) \<and>
       map_of ci ''systems'' = Some b \<and>
       \<not> set (arg_value b) \<subseteq> set (concat (map (\<lambda>env. map sys_name (env_systems env)) envs)) \<longrightarrow>
      (\<exists>bad. find (\<lambda>n. n \<notin> set (concat (map (\<lambda>env. map sys_name (env_systems env)) envs)))
                (arg_value b) = Some bad \<and>
         bad \<in> set (arg_value b) \<and>
         bad \<notin> set (concat (map (\<lambda>env. map sys_name (env_systems env)) envs)) \<and>
         validate_environments ci envs =
           Inl (InvalidSystem_init bad
                  (concat (map (\<lambda>env. map sys_name (env_systems env)) envs)))))
   \<and> (names \<noteq> [] \<longrightarrow>
        InvalidEnvironment_init name names =
          InvalidEnvironment
            (''No such environment: '' @ name @ newline @
             ''Please use one of the following available environments:'' @ newline @
             name_lines names))"
proof (intro conjI impI)
  assume "map_of ci ''env_name'' = Some a \<and> \<not> set (arg_value a) \<subseteq> set (map env_name envs)"
  then show "\<exists>bad. find (\<lambda>n. n \<notin> set (map env_name envs)) (arg_value a) = Some bad \<and>
         bad \<in> set (arg_value a) \<and> bad \<notin> set (map env_name envs) \<and>
         validate_environments ci envs = Inl (InvalidEnvironment_init bad (map env_name envs))"
    using validate_invalid_environment [where ci = ci and a = a and envs = envs] by blast
next
  assume "(case map_of ci ''env_name'' of None \<Rightarrow> True
        | Some a \<Rightarrow> set (arg_value a) \<subseteq> set (map env_name envs)) \<and>
       map_of ci ''systems'' = Some b \<and>
       \<not> set (arg_value b) \<subseteq> set (concat (map (\<lambda>env. map sys_name (env_systems env)) envs))"
  then show "\<exists>bad. find (\<lambda>n. n \<notin> set (concat (map (\<lambda>env. map sys_name (env_systems env)) envs)))
                (arg_value b) = Some bad \<and>
         bad \<in> set (arg_value b) \<and>
         bad \<notin> set (concat (map (\<lambda>env. map sys_name (env_systems env)) envs)) \<and>
         validate_environments ci envs =
           Inl (InvalidSystem_init bad
                  (concat (map (\<lambda>env. map sys_name (env_systems env)) envs)))"
    using validate_invalid_system [where ci = ci and b = b and envs = envs] by blast
next
  assume "names \<noteq> []"
  then show "InvalidEnvironment_init name names =
          InvalidEnvironment
            (''No such environment: '' @ name @ newline @
             ''Please use one of the following available environments:'' @ newline @
             name_lines names)"
    by (simp add: InvalidEnvironment_init_def)
qed

theorem validator_existence_first_witness:
  "map_of args_prod ''env_name'' = Some \<lparr>arg_value = [''staging'', ''prod'']\<rparr>
   \<and> \<not> set [''staging'', ''prod''] \<subseteq> set (map env_name [env_staging, env_dev])
   \<and> validate_environments args_prod [env_staging, env_dev] =
       Inl (InvalidEnvironment
              (''No such environment: prod'' @ newline @
               ''Please use one of the following available environments:'' @ newline @
               ''staging'' @ newline @ ''dev'' @ newline))
   \<and> map_of args_system_nowhere ''systems'' = Some \<lparr>arg_value = [''sys_a'', ''nowhere'']\<rparr>
   \<and> validate_environments args_system_nowhere [env_staging, env_dev] =
       Inl (InvalidSystem_init ''nowhere'' [''sys_a'', ''sys_b'', ''sys_c''])"
proof -
  note T1 = validator_existence_first [of args_prod "\<lparr>arg_value = [''staging'', ''prod'']\<rparr>"
      "[env_staging, env_dev]" "\<lparr>arg_value = [''nowhere'']\<rparr>" "[''staging'', ''dev'']" "''prod''"]
  note T2 = validator_existence_first [of args_system_nowhere "\<lparr>arg_value = [''staging'']\<rparr>"
      "[env_staging, env_dev]" "\<lparr>arg_value = [''sys_a'', ''nowhere'']\<rparr>" "[''staging'', ''dev'']"
      "''prod''"]
  have n: "map env_name [env_staging, env_dev] = [''staging'', ''dev'']" by code_simp
  have a: "concat (map (\<lambda>env. map sys_name (env_systems env)) [env_staging, env_dev]) =
           [''sys_a'', ''sys_b'', ''sys_c'']" by code_simp
  have h1: "map_of args_prod ''env_name'' = Some \<lparr>arg_value = [''staging'', ''prod'']\<rparr>"
    by code_simp
  have h2: "\<not> set [''staging'', ''prod''] \<subseteq> set (map env_name [env_staging, env_dev])"
    unfolding n by simp
  have f1: "find (\<lambda>n. n \<notin> set (map env_name [env_staging, env_dev])) [''staging'', ''prod''] =
            Some ''prod''"
    unfolding n by simp
  from T1 h1 h2 f1
  have c1: "validate_environments args_prod [env_staging, env_dev] =
       Inl (InvalidEnvironment_init ''prod'' (map env_name [env_staging, env_dev]))"
    by auto
  from T1 have m: "InvalidEnvironment_init ''prod'' [''staging'', ''dev''] =
          InvalidEnvironment
            (''No such environment: '' @ ''prod'' @ newline @
             ''Please use one of the following available environments:'' @ newline @
             name_lines [''staging'', ''dev''])" by simp
  have c1': "validate_environments args_prod [env_staging, env_dev] =
       Inl (InvalidEnvironment
              (''No such environment: prod'' @ newline @
               ''Please use one of the following available environments:'' @ newline @
               ''staging'' @ newline @ ''dev'' @ newline))"
    using c1 m unfolding n by (simp add: name_lines_def)
  have g1: "map_of args_system_nowhere ''env_name'' = Some \<lparr>arg_value = [''staging'']\<rparr>"
    by code_simp
  have g2: "map_of args_system_nowhere ''systems'' = Some \<lparr>arg_value = [''sys_a'', ''nowhere'']\<rparr>"
    by code_simp
  have g3: "set [''staging''] \<subseteq> set (map env_name [env_staging, env_dev])"
    unfolding n by simp
  have g4: "\<not> set [''sys_a'', ''nowhere''] \<subseteq>
      set (concat (map (\<lambda>env. map sys_name (env_systems env)) [env_staging, env_dev]))"
    unfolding a by simp
  have f2: "find (\<lambda>n. n \<notin> set (concat (map (\<lambda>env. map sys_name (env_systems env))
              [env_staging, env_dev]))) [''sys_a'', ''nowhere''] = Some ''nowhere''"
    unfolding a by simp
  from T2 g1 g2 g3 g4 f2
  have c2: "validate_environments args_system_nowhere [env_staging, env_dev] =
       Inl (InvalidSystem_init ''nowhere''
              (concat (map (\<lambda>env. map sys_name (env_systems env)) [env_staging, env_dev])))"
    by auto
  from h1 h2 c1' g2 c2 show ?thesis unfolding a by simp
qed

text \<open>
  Claim C8. When both existence checks pass, \<open>validate_environments\<close> returns the
  surviving environments and their systems, and raises \<open>NoValidSystem\<close> when no system
  survives. Whatever it returns: the list of systems is not empty; every returned
  environment has at least one system; every returned system satisfies all the user's
  constraints, and for a constraint on source names it has an attached source whose name
  is among the requested ones.
\<close>

theorem validator_filtering:
  "consistent_system ci sys = system_survives ci sys
   \<and> ((case map_of ci ''env_name'' of None \<Rightarrow> True
        | Some a \<Rightarrow> set (arg_value a) \<subseteq> set (map env_name envs)) \<and>
       (case map_of ci ''systems'' of None \<Rightarrow> True
        | Some a \<Rightarrow> set (arg_value a) \<subseteq>
            set (concat (map (\<lambda>env. map sys_name (env_systems env)) envs))) \<longrightarrow>
      validate_environments ci envs =
        (if concat (map env_systems (surviving_environments ci envs)) = []
         then Inl (NoValidSystem_init
                     (concat (map (\<lambda>env. map sys_name (env_systems env)) envs)))
         else Inr (surviving_environments ci envs,
                   concat (map env_systems (surviving_environments ci envs)))))
   \<and> (validate_environments ci envs = Inr (user_envs, user_systems) \<longrightarrow>
        user_systems \<noteq> [] \<and>
        user_envs = surviving_environments ci envs \<and>
        user_systems = concat (map env_systems user_envs) \<and>
        (\<forall>e\<in>set user_envs. env_systems e \<noteq> [] \<and>
            (\<forall>s\<in>set (env_systems e). system_survives ci s)) \<and>
        (\<forall>s\<in>set user_systems. system_survives ci s \<and>
            (\<forall>a. map_of ci ''sources'' = Some a \<longrightarrow>
               (\<exists>src\<in>set (sys_sources s). src_name src \<in> set (arg_value a)))))"
proof (intro conjI impI)
  show "consistent_system ci sys = system_survives ci sys"
    by (simp add: consistent_system_survives)
next
  assume "(case map_of ci ''env_name'' of None \<Rightarrow> True
        | Some a \<Rightarrow> set (arg_value a) \<subseteq> set (map env_name envs)) \<and>
       (case map_of ci ''systems'' of None \<Rightarrow> True
        | Some a \<Rightarrow> set (arg_value a) \<subseteq>
            set (concat (map (\<lambda>env. map sys_name (env_systems env)) envs)))"
  then show "validate_environments ci envs =
        (if concat (map env_systems (surviving_environments ci envs)) = []
         then Inl (NoValidSystem_init
                     (concat (map (\<lambda>env. map sys_name (env_systems env)) envs)))
         else Inr (surviving_environments ci envs,
                   concat (map env_systems (surviving_environments ci envs))))"
    using validate_filters [where ci = ci and envs = envs] by blast
next
  assume r: "validate_environments ci envs = Inr (user_envs, user_systems)"
  note v = validate_returns [OF r]
  show "user_systems \<noteq> []" by (rule v(3))
  show "user_envs = surviving_environments ci envs" by (rule v(1))
  show "user_systems = concat (map env_systems user_envs)" by (rule v(2))
  show e: "\<forall>e\<in>set user_envs. env_systems e \<noteq> [] \<and>
            (\<forall>s\<in>set (env_systems e). system_survives ci s)"
    unfolding v(1) using surviving_environments_props(1,2) [where ci = ci and envs = envs] by blast
  show "\<forall>s\<in>set user_systems. system_survives ci s \<and>
            (\<forall>a. map_of ci ''sources'' = Some a \<longrightarrow>
               (\<exists>src\<in>set (sys_sources s). src_name src \<in> set (arg_value a)))"
  proof
    fix s assume "s \<in> set user_systems"
    with v(2) obtain e where "e \<in> set user_envs" "s \<in> set (env_systems e)" by auto
    with e have "system_survives ci s" by blast
    then show "system_survives ci s \<and>
            (\<forall>a. map_of ci ''sources'' = Some a \<longrightarrow>
               (\<exists>src\<in>set (sys_sources s). src_name src \<in> set (arg_value a)))"
      using system_survives_sources [where ci = ci and s = s] by blast
  qed
qed

theorem validator_filtering_witness:
  "map_of args_source_Y ''env_name'' = None
   \<and> map_of args_source_Y ''systems'' = None
   \<and> validate_environments args_source_Y [env_staging, env_dev] =
       Inr ([env_staging\<lparr>env_systems := [sys_a]\<rparr>], [sys_a])
   \<and> system_survives args_source_Y sys_a
   \<and> \<not> system_survives args_source_Y sys_b
   \<and> (\<exists>src\<in>set (sys_sources sys_a). src_name src \<in> set [''Y''])
   \<and> validate_environments args_source_W [env_staging, env_dev] =
       Inl (NoValidSystem_init [''sys_a'', ''sys_b'', ''sys_c''])"
proof -
  note T1 = validator_filtering [of args_source_Y sys_a "[env_staging, env_dev]"
      "[env_staging\<lparr>env_systems := [sys_a]\<rparr>]" "[sys_a]"]
  note T2 = validator_filtering [of args_source_W sys_a "[env_staging, env_dev]"
      "[env_staging\<lparr>env_systems := [sys_a]\<rparr>]" "[sys_a]"]
  have h1: "map_of args_source_Y ''env_name'' = None" "map_of args_source_Y ''systems'' = None"
    by code_simp+
  have h2: "map_of args_source_W ''env_name'' = None" "map_of args_source_W ''systems'' = None"
    by code_simp+
  have s1: "surviving_environments args_source_Y [env_staging, env_dev] =
            [env_staging\<lparr>env_systems := [sys_a]\<rparr>]" by code_simp
  have s2: "surviving_environments args_source_W [env_staging, env_dev] = []" by code_simp
  have a: "concat (map (\<lambda>env. map sys_name (env_systems env)) [env_staging, env_dev]) =
           [''sys_a'', ''sys_b'', ''sys_c'']" by code_simp
  have y: "map_of args_source_Y ''sources'' = Some \<lparr>arg_value = [''Y'']\<rparr>" by code_simp
  have nb: "\<not> system_survives args_source_Y sys_b" by code_simp
  from T1 h1 s1
  have c1: "validate_environments args_source_Y [env_staging, env_dev] =
       Inr ([env_staging\<lparr>env_systems := [sys_a]\<rparr>], [sys_a])"
    by simp
  with T1 have c2: "system_survives args_source_Y sys_a \<and>
      (\<forall>a. map_of args_source_Y ''sources'' = Some a \<longrightarrow>
         (\<exists>src\<in>set (sys_sources sys_a). src_name src \<in> set (arg_value a)))"
    by simp
  with y have c3: "\<exists>src\<in>set (sys_sources sys_a). src_name src \<in> set [''Y'']"
    by auto
  from T2 h2 s2 a
  have c4: "validate_environments args_source_W [env_staging, env_dev] =
       Inl (NoValidSystem_init [''sys_a'', ''sys_b'', ''sys_c''])"
    by simp
  from h1 c1 c2 nb c3 c4 show ?thesis by blast
qed

section \<open>The request decorator\<close>

lemma safe_request_generic_custom:
  "request args = Raise ex \<Longrightarrow> derived_from_Exception ex \<Longrightarrow> ex \<noteq> HTTPError None \<Longrightarrow>
     is_custom_error ce (safe_request_generic request ce args)"
  by (cases ex) (auto simp: safe_request_generic_def split: option.splits)

text \<open>
  Claim C9 as stated fails: a \<open>KeyboardInterrupt\<close> raised inside the wrapped call is not
  matched by \<open>except Exception\<close>; it leaves the wrapped call as it is, not as a
  \<open>JenkinsError\<close>.
\<close>

theorem safe_request_interrupt_propagates:
  "safe_request interrupted_request ''/api/json'' = Raise (NonException ''KeyboardInterrupt'')
   \<and> \<not> is_custom_error ''JenkinsError'' (safe_request interrupted_request ''/api/json'')"
  by (simp add: safe_request_def safe_request_generic_def interrupted_request_def)

text \<open>
  Claim C9, amended. On success the value of the wrapped call is returned unchanged. An
  exception derived from \<open>Exception\<close>, other than an HTTP error that carries no response,
  is re-raised as the custom error with a cause message: one message for an SSL error,
  one for a connection error, one with the status code for an HTTP error that carries its
  response, and one for every exception derived from \<open>Exception\<close> that is none of SSL
  error, connection error and HTTP error. An exception that derives from \<open>BaseException\<close>
  only propagates unchanged. Nothing is stated about an HTTP error that carries no
  response.
\<close>

theorem safe_request_generic_wraps:
  "(request args = Return v \<longrightarrow> safe_request_generic request ce args = Return v)
   \<and> (request args = Raise SSLError \<longrightarrow>
        safe_request_generic request ce args =
          Raise (CustomError ce ''Please set certificates in order to connect to the system''))
   \<and> (request args = Raise ConnectionError \<longrightarrow>
        safe_request_generic request ce args =
          Raise (CustomError ce
            ''Could not connect to target host, please ensure connection details are correct.''))
   \<and> (request args = Raise (HTTPError (Some code)) \<longrightarrow>
        safe_request_generic request ce args =
          Raise (CustomError ce (''Got response '' @ str_int code @ '' from target host.'')))
   \<and> (request args = Raise ex \<and> derived_from_Exception ex \<and>
       ex \<noteq> SSLError \<and> ex \<noteq> ConnectionError \<and> (\<forall>r. ex \<noteq> HTTPError r) \<longrightarrow>
        safe_request_generic request ce args =
          Raise (CustomError ce ''Failure on request to target host.''))
   \<and> (request args = Raise ex \<and> derived_from_Exception ex \<and> ex \<noteq> HTTPError None \<longrightarrow>
        is_custom_error ce (safe_request_generic request ce args))
   \<and> (request args = Raise (NonException n) \<longrightarrow>
        safe_request_generic request ce args = Raise (NonException n))"
proof (intro conjI impI)
  assume "request args = Raise ex \<and> derived_from_Exception ex \<and>
       ex \<noteq> SSLError \<and> ex \<noteq> ConnectionError \<and> (\<forall>r. ex \<noteq> HTTPError r)"
  then show "safe_request_generic request ce args =
          Raise (CustomError ce ''Failure on request to target host.'')"
    by (cases ex) (auto simp: safe_request_generic_def)
next
  assume "request args = Raise ex \<and> derived_from_Exception ex \<and> ex \<noteq> HTTPError None"
  then show "is_custom_error ce (safe_request_generic request ce args)"
    using safe_request_generic_custom [where request = request and args = args and ex = ex]
    by blast
qed (simp_all add: safe_request_generic_def)

theorem safe_request_generic_wraps_witness:
  "safe_request_generic answered_request ''JenkinsError'' ''/api/json'' = Return ''{}''
   \<and> safe_request_generic ssl_request ''JenkinsError'' ''/api/json'' =
       Raise (CustomError ''JenkinsError''
         ''Please set certificates in order to connect to the system'')
   \<and> safe_request_generic refused_request ''JenkinsError'' ''/api/json'' =
       Raise (CustomError ''JenkinsError''
         ''Could not connect to target host, please ensure connection details are correct.'')
   \<and> safe_request_generic not_found_request ''JenkinsError'' ''/api/json'' =
       Raise (CustomError ''JenkinsError'' ''Got response 404 from target host.'')
   \<and> safe_request_generic broken_request ''JenkinsError'' ''/api/json'' =
       Raise (CustomError ''JenkinsError'' ''Failure on request to target host.'')
   \<and> is_custom_error ''JenkinsError''
       (safe_request_generic broken_request ''JenkinsError'' ''/api/json'')
   \<and> safe_request_generic interrupted_request ''JenkinsError'' ''/api/json'' =
       Raise (NonException ''KeyboardInterrupt'')"
proof -
  have s: "str_int 404 = ''404''" by code_simp
  have c1: "safe_request_generic answered_request ''JenkinsError'' ''/api/json'' = Return ''{}''"
    using safe_request_generic_wraps [of answered_request "''/api/json''" "''{}''"]
    by (simp add: answered_request_def)
  have c2: "safe_request_generic ssl_request ''JenkinsError'' ''/api/json'' =
       Raise (CustomError ''JenkinsError''
         ''Please set certificates in order to connect to the system'')"
    using safe_request_generic_wraps [of ssl_request "''/api/json''"]
    by (simp add: ssl_request_def)
  have c3: "safe_request_generic refused_request ''JenkinsError'' ''/api/json'' =
       Raise (CustomError ''JenkinsError''
         ''Could not connect to target host, please ensure connection details are correct.'')"
    using safe_request_generic_wraps [of refused_request "''/api/json''"]
    by (simp add: refused_request_def)
  have c4: "safe_request_generic not_found_request ''JenkinsError'' ''/api/json'' =
       Raise (CustomError ''JenkinsError'' ''Got response 404 from target host.'')"
    using safe_request_generic_wraps [where request = not_found_request and args = "''/api/json''"
        and code = 404 and ce = "''JenkinsError''"] s
    by (simp add: not_found_request_def)
  have c5: "safe_request_generic broken_request ''JenkinsError'' ''/api/json'' =
       Raise (CustomError ''JenkinsError'' ''Failure on request to target host.'')
     \<and> is_custom_error ''JenkinsError''
       (safe_request_generic broken_request ''JenkinsError'' ''/api/json'')"
    using safe_request_generic_wraps [where request = broken_request and args = "''/api/json''"
        and ex = "OtherException ''JSONDecodeError''" and ce = "''JenkinsError''"]
    by (simp add: broken_request_def)
  have c6: "safe_request_generic interrupted_request ''JenkinsError'' ''/api/json'' =
       Raise (NonException ''KeyboardInterrupt'')"
    using safe_request_generic_wraps [where request = interrupted_request
        and args = "''/api/json''" and n = "''KeyboardInterrupt''" and ce = "''JenkinsError''"]
    by (simp add: interrupted_request_def)
  from c1 c2 c3 c4 c5 c6 show ?thesis by blast
qed

end
